theory Spec2Isabelle
  imports Complex_Main "HOL-Library.Sublist" "HOL-Library.Multiset"
begin

section \<open>Numeric conventions and numpy primitives\<close>

text \<open>
  Scores (correlations, match rates, indexation errors) are Python or numpy floats in
  \<^verbatim>\<open>pyxem/utils/indexation_utils.py\<close>; here they are real numbers, so rounding,
  infinities and NaN are outside the model. A division whose denominator is zero has no
  real-valued result in the program (Python floats raise \<^verbatim>\<open>ZeroDivisionError\<close>,
  numpy scalars produce inf or nan with a warning); the model makes that outcome the
  error \<open>ZeroDivisionError\<close> instead of using the total division of HOL.
\<close>

datatype error = IndexError | ValueError | ZeroDivisionError

definition bind_err :: "error + 'a \<Rightarrow> ('a \<Rightarrow> error + 'b) \<Rightarrow> error + 'b" where
  "bind_err m f = (case m of Inl e \<Rightarrow> Inl e | Inr x \<Rightarrow> f x)"

definition py_div :: "real \<Rightarrow> real \<Rightarrow> error + real" where
  "py_div a b = (if b = 0 then Inl ZeroDivisionError else Inr (a / b))"

text \<open>\<^verbatim>\<open>np.unique(a).shape[0]\<close>: the number of distinct entries.\<close>

definition np_unique_count :: "'a list \<Rightarrow> nat" where
  "np_unique_count xs = length (remdups xs)"

text \<open>\<^verbatim>\<open>np.max\<close>, \<^verbatim>\<open>np.min\<close>, \<^verbatim>\<open>np.argmax\<close>, \<^verbatim>\<open>np.argmin\<close>: an empty
  array raises \<^verbatim>\<open>ValueError\<close>; argmax and argmin return the first index of the extremum.\<close>

definition np_max :: "real list \<Rightarrow> error + real" where
  "np_max xs = (if xs = [] then Inl ValueError else Inr (Max (set xs)))"

definition np_min :: "real list \<Rightarrow> error + real" where
  "np_min xs = (if xs = [] then Inl ValueError else Inr (Min (set xs)))"

definition np_argmax :: "real list \<Rightarrow> error + nat" where
  "np_argmax xs =
     (if xs = [] then Inl ValueError
      else Inr (length (takeWhile (\<lambda>x. x \<noteq> Max (set xs)) xs)))"

definition np_argmin :: "real list \<Rightarrow> error + nat" where
  "np_argmin xs =
     (if xs = [] then Inl ValueError
      else Inr (length (takeWhile (\<lambda>x. x \<noteq> Min (set xs)) xs)))"

text \<open>\<^verbatim>\<open>np.partition(a, kth)[kth]\<close>: the entry that a full sort puts at position
  \<open>kth\<close> (negative \<open>kth\<close> counts from the end); \<open>kth\<close> out of bounds raises
  \<^verbatim>\<open>ValueError\<close>.\<close>

definition np_partition_kth :: "real list \<Rightarrow> int \<Rightarrow> error + real" where
  "np_partition_kth xs kth =
     (let n = int (length xs); j = (if kth < 0 then kth + n else kth)
      in if 0 \<le> j \<and> j < n then Inr (sort xs ! nat j) else Inl ValueError)"

section \<open>Crystal map reducers\<close>

text \<open>A template matching row \<^verbatim>\<open>[phase, [z, x, z], correlation]\<close>.\<close>

datatype 'o template_row =
  TemplateRow (t_phase: nat) (t_orientation: 'o) (t_correlation: real)

text \<open>A vector matching row \<^verbatim>\<open>[phase, R, match_rate, ehkls, total_error]\<close>.\<close>

datatype ('m, 'e) vector_row =
  VectorRow (v_phase: nat) (v_rotation: 'm) (v_match_rate: real) (v_ehkls: 'e)
    (v_total_error: real)

text \<open>The values of the metrics dictionary of the vector reducer: a scalar, or the
  error array \<^verbatim>\<open>ehkls\<close>.\<close>

datatype 'e metric = Num real | Arr 'e

text \<open>\<^verbatim>\<open>crystal_from_template_matching(z_matches)\<close>. The result is
  \<^verbatim>\<open>[phase, orientation, metrics]\<close>.\<close>

definition crystal_from_template_matching ::
  "'o template_row list \<Rightarrow> error + (nat \<times> 'o \<times> (string \<rightharpoonup> real))" where
  "crystal_from_template_matching z_matches =
     (if np_unique_count (map t_phase z_matches) = 1 then
        (if length z_matches < 2 then Inl IndexError
         else
           bind_err (py_div (t_correlation (z_matches ! 1)) (t_correlation (z_matches ! 0)))
             (\<lambda>ratio.
               Inr (t_phase (z_matches ! 0), t_orientation (z_matches ! 0),
                    [''correlation'' \<mapsto> t_correlation (z_matches ! 0),
                     ''orientation_reliability'' \<mapsto> 100 * (1 - ratio)])))
      else
        bind_err (np_argmax (map t_correlation z_matches)) (\<lambda>index_best_match.
          let best = z_matches ! index_best_match;
              z = filter (\<lambda>r. t_phase r = t_phase best) z_matches
          in bind_err (np_partition_kth (map t_correlation z) (- 2)) (\<lambda>second_orientation.
               let z' = filter (\<lambda>r. t_phase r \<noteq> t_phase best) z_matches
               in bind_err (np_max (map t_correlation z')) (\<lambda>second_phase.
                    bind_err (py_div second_orientation (t_correlation best)) (\<lambda>ratio_o.
                      bind_err (py_div second_phase (t_correlation best)) (\<lambda>ratio_p.
                        Inr (t_phase best, t_orientation best,
                             [''correlation'' \<mapsto> t_correlation best,
                              ''orientation_reliability'' \<mapsto> 100 * (1 - ratio_o),
                              ''phase_reliability'' \<mapsto> 100 * (1 - ratio_p)])))))))"

text \<open>\<^verbatim>\<open>crystal_from_vector_matching(z_matches)\<close>. The conversion
  \<^verbatim>\<open>mat2euler(R, 'rzxz')\<close> belongs to the library transforms3d and is a parameter.\<close>

definition crystal_from_vector_matching ::
  "('m \<Rightarrow> 'o) \<Rightarrow> ('m, 'e) vector_row list \<Rightarrow> error + (nat \<times> 'o \<times> (string \<rightharpoonup> 'e metric))" where
  "crystal_from_vector_matching mat2euler z_matches =
     (if np_unique_count (map v_phase z_matches) = 1 then
        (if length z_matches < 2 then Inl IndexError
         else
           bind_err (py_div (v_total_error (z_matches ! 0)) (v_total_error (z_matches ! 1)))
             (\<lambda>ratio.
               Inr (v_phase (z_matches ! 0), mat2euler (v_rotation (z_matches ! 0)),
                    [''match_rate'' \<mapsto> Num (v_match_rate (z_matches ! 0)),
                     ''ehkls'' \<mapsto> Arr (v_ehkls (z_matches ! 0)),
                     ''total_error'' \<mapsto> Num (v_total_error (z_matches ! 0)),
                     ''orientation_reliability'' \<mapsto> Num (100 * (1 - ratio))])))
      else
        bind_err (np_argmin (map v_total_error z_matches)) (\<lambda>index_best_match.
          let best = z_matches ! index_best_match;
              z = filter (\<lambda>r. v_phase r = v_phase best) z_matches
          in bind_err (np_partition_kth (map v_total_error z) 1) (\<lambda>second_orientation.
               let z' = filter (\<lambda>r. v_phase r \<noteq> v_phase best) z_matches
               in bind_err (np_min (map v_total_error z')) (\<lambda>second_phase.
                    bind_err (py_div (v_total_error best) second_orientation) (\<lambda>ratio_o.
                      bind_err (py_div (v_total_error best) second_phase) (\<lambda>ratio_p.
                        Inr (v_phase best, mat2euler (v_rotation best),
                             [''match_rate'' \<mapsto> Num (v_match_rate best),
                              ''ehkls'' \<mapsto> Arr (v_ehkls best),
                              ''total_error'' \<mapsto> Num (v_total_error best),
                              ''orientation_reliability'' \<mapsto> Num (100 * (1 - ratio_o)),
                              ''phase_reliability'' \<mapsto> Num (100 * (1 - ratio_p))])))))))"

text \<open>The input contract of the reducers: within each phase the rows are sorted
  best-first (correlation descending, total error ascending).\<close>

definition template_sorted :: "'o template_row list \<Rightarrow> bool" where
  "template_sorted zs =
     (\<forall>p \<in> set (map t_phase zs).
        sorted (rev (map t_correlation (filter (\<lambda>r. t_phase r = p) zs))))"

definition vector_sorted :: "('m, 'e) vector_row list \<Rightarrow> bool" where
  "vector_sorted zs =
     (\<forall>p \<in> set (map v_phase zs).
        sorted (map v_total_error (filter (\<lambda>r. v_phase r = p) zs)))"

section \<open>Solution ranker\<close>

text \<open>
  \<^verbatim>\<open>np.argsort\<close> belongs to numpy and is a parameter. Its contract: the result is a
  permutation of the indices that puts the keys in ascending order. The order among equal
  keys is not part of the contract (the default sort kind is not stable).
\<close>

definition argsort_ok :: "(real list \<Rightarrow> nat list) \<Rightarrow> bool" where
  "argsort_ok argsort \<longleftrightarrow>
     (\<forall>ks. mset (argsort ks) = mset [0..<length ks]
         \<and> sorted (map (\<lambda>i. ks ! i) (argsort ks)))"

text \<open>
  The stable argsort: equal keys keep their input order. This is what numpy's default
  sort does on short arrays, where it is an insertion sort.
\<close>

definition np_argsort_stable :: "real list \<Rightarrow> nat list" where
  "np_argsort_stable ks = sort_key (\<lambda>i. ks ! i) [0..<length ks]"

text \<open>The slice \<^verbatim>\<open>a[:n]\<close>; a negative \<open>n\<close> counts from the end.\<close>

definition py_take :: "int \<Rightarrow> 'a list \<Rightarrow> 'a list" where
  "py_take n xs = (if 0 \<le> n then take (nat n) xs else take (length xs - nat (- n)) xs)"

text \<open>A solution row of \<^verbatim>\<open>match_vectors\<close>:
  \<^verbatim>\<open>[R, match_rate, ehkls, error_mean, vector_pair_index]\<close>.\<close>

datatype ('m, 'e) solution =
  Solution (s_rotation: 'm) (s_match_rate: real) (s_ehkls: 'e) (s_error_mean: real)
    (s_pair_index: nat)

text \<open>\<^verbatim>\<open>_sort_solutions(solutions, n_solutions)\<close>:
  \<^verbatim>\<open>solutions[solutions[:, 1].argsort()[::-1][:n_solutions]]\<close> with
  \<^verbatim>\<open>n_solutions = min(n_solutions, solutions.shape[0])\<close>.\<close>

definition sort_solutions ::
  "(real list \<Rightarrow> nat list) \<Rightarrow> ('m, 'e) solution list \<Rightarrow> int \<Rightarrow> ('m, 'e) solution list" where
  "sort_solutions argsort solutions n_solutions =
     (let n = min n_solutions (int (length solutions))
      in map (\<lambda>i. solutions ! i) (py_take n (rev (argsort (map s_match_rate solutions)))))"

section \<open>Peak selector\<close>

text \<open>
  \<^verbatim>\<open>ndarray.argpartition\<close> belongs to numpy and is a parameter, applied to the keys
  and to a position \<open>kth\<close> that is already counted from the front. Its contract, for
  \<open>kth\<close> in range: the result is a permutation of the indices, the entries before
  position \<open>kth\<close> have keys at most that of the entry at \<open>kth\<close>, and the entries after
  it have keys at least that. The order inside the two parts is not part of the contract.
\<close>

definition argpartition_ok :: "(real list \<Rightarrow> nat \<Rightarrow> nat list) \<Rightarrow> bool" where
  "argpartition_ok argpartition \<longleftrightarrow>
     (\<forall>ks kth. kth < length ks \<longrightarrow>
        mset (argpartition ks kth) = mset [0..<length ks]
        \<and> (\<forall>i<length ks.
              (i < kth \<longrightarrow> ks ! (argpartition ks kth ! i) \<le> ks ! (argpartition ks kth ! kth))
            \<and> (kth < i \<longrightarrow> ks ! (argpartition ks kth ! kth) \<le> ks ! (argpartition ks kth ! i))))"

text \<open>A scattering vector, one row of the \<open>(N, 3)\<close> array \<^verbatim>\<open>peaks\<close>, and
  \<^verbatim>\<open>np.linalg.norm\<close> of a row.\<close>

type_synonym vec = "real \<times> real \<times> real"

definition np_linalg_norm :: "vec \<Rightarrow> real" where
  "np_linalg_norm v = (case v of (x, y, z) \<Rightarrow> sqrt (x\<^sup>2 + y\<^sup>2 + z\<^sup>2))"

text \<open>
  \<^verbatim>\<open>_choose_peak_ids(peaks, n_peaks_to_index)\<close>. With \<open>N\<close> peaks,
  \<^verbatim>\<open>argpartition(-n_long)[-n_long:]\<close> is the part from position \<open>N - n_long\<close> on and
  \<^verbatim>\<open>argpartition(n_short)[:n_short]\<close> the part before position \<open>n_short\<close>. A negative
  count is rejected by \<^verbatim>\<open>np.empty\<close>; with a count of zero the first assignment puts all
  \<open>N\<close> indices into an empty slice, which numpy refuses unless \<open>N = 1\<close>, and on an empty
  array position 0 is out of bounds.
\<close>

definition choose_peak_ids ::
  "(real list \<Rightarrow> nat \<Rightarrow> nat list) \<Rightarrow> vec list \<Rightarrow> int \<Rightarrow> error + nat list" where
  "choose_peak_ids argpartition peaks n_peaks_to_index =
     (let n = min (int (length peaks)) n_peaks_to_index;
          n_long = \<lceil>real_of_int n / 2\<rceil>;
          n_short = n - n_long;
          peak_lengths = map np_linalg_norm peaks
      in if n < 0 then Inl ValueError
         else if n = 0 then (if length peaks = 1 then Inr [] else Inl ValueError)
         else Inr (drop (length peaks - nat n_long)
                     (argpartition peak_lengths (length peaks - nat n_long))
                   @ take (nat n_short) (argpartition peak_lengths (nat n_short))))"

text \<open>
  Two functions that meet the contract of \<^verbatim>\<open>argpartition\<close>. The first sorts all keys
  with the stable argsort. The second agrees with it at even positions \<open>kth\<close> and, at odd
  positions, lists equal keys by decreasing index; numpy's partial sort also orders equal
  keys in a way that depends on \<open>kth\<close>.
\<close>

definition argpartition_sorted :: "real list \<Rightarrow> nat \<Rightarrow> nat list" where
  "argpartition_sorted ks kth = np_argsort_stable ks"

definition argpartition_ties :: "real list \<Rightarrow> nat \<Rightarrow> nat list" where
  "argpartition_ties ks kth =
     (if even kth then np_argsort_stable ks
      else rev (np_argsort_stable (map uminus ks)))"

section \<open>Vector matching\<close>

text \<open>A \<open>3 \<times> 3\<close> matrix by rows, \<^verbatim>\<open>np.identity(3)\<close>, and one row of
  \<^verbatim>\<open>peaks.dot(R)\<close>.\<close>

type_synonym matrix = "vec \<times> vec \<times> vec"

definition identity3 :: matrix where
  "identity3 = ((1, 0, 0), (0, 1, 0), (0, 0, 1))"

definition vec_mat :: "vec \<Rightarrow> matrix \<Rightarrow> vec" where
  "vec_mat v R =
     (case v of (x, y, z) \<Rightarrow>
        (case R of ((a, b, c), (d, e, f), (g, h, i)) \<Rightarrow>
           (x * a + y * d + z * g, x * b + y * e + z * h, x * c + y * f + z * i)))"

text \<open>\<^verbatim>\<open>np.rint\<close> rounds to the nearest integer, halves to the even one.\<close>

definition np_rint :: "real \<Rightarrow> real" where
  "np_rint x =
     (let f = \<lfloor>x\<rfloor>; d = x - of_int f
      in if d < 1 / 2 then of_int f
         else if 1 / 2 < d then of_int f + 1
         else if even f then of_int f else of_int f + 1)"

definition rint3 :: "vec \<Rightarrow> vec" where
  "rint3 v = (case v of (a, b, c) \<Rightarrow> (np_rint a, np_rint b, np_rint c))"

text \<open>One row of \<^verbatim>\<open>np.abs(hkls - rhkls)\<close> and of \<^verbatim>\<open>np.max(ehkls, axis=1)\<close>.\<close>

definition abs_diff3 :: "vec \<Rightarrow> vec \<Rightarrow> vec" where
  "abs_diff3 u v =
     (case u of (a, b, c) \<Rightarrow> (case v of (a', b', c') \<Rightarrow> (\<bar>a - a'\<bar>, \<bar>b - b'\<bar>, \<bar>c - c'\<bar>)))"

definition max3 :: "vec \<Rightarrow> real" where
  "max3 v = (case v of (a, b, c) \<Rightarrow> max a (max b c))"

definition entries :: "vec list \<Rightarrow> real list" where
  "entries vs = concat (map (\<lambda>v. case v of (a, b, c) \<Rightarrow> [a, b, c]) vs)"

text \<open>\<^verbatim>\<open>ndarray.mean()\<close> over all entries.\<close>

definition np_mean :: "real list \<Rightarrow> real" where
  "np_mean xs = sum_list xs / real (length xs)"

text \<open>
  The reciprocal lattice of a phase (\<^verbatim>\<open>structure.lattice.reciprocal()\<close>, library diffpy)
  with its two conversions, and the catalog of a phase: the hkl pairs
  \<^verbatim>\<open>phase['indices']\<close> and their measurements \<^verbatim>\<open>phase['measurements']\<close> (two lengths and
  an angle), row by row.
\<close>

record lattice =
  cartesian :: "vec \<Rightarrow> vec"
  fractional :: "vec \<Rightarrow> vec"

record phase_entry =
  indices :: "(vec \<times> vec) list"
  measurements :: "(real \<times> real \<times> real) list"

text \<open>
  Lines 294 to 320 of \<^verbatim>\<open>match_vectors\<close>: the peaks are indexed with the rotation
  \<open>R\<close>, and the rotation becomes a solution when more than two peaks are within the
  tolerance. The result is the solution row and the rounded indices kept for
  \<^verbatim>\<open>res_rhkls\<close>.
\<close>

definition evaluate_rotation ::
  "lattice \<Rightarrow> vec list \<Rightarrow> real \<Rightarrow> nat \<Rightarrow> matrix
     \<Rightarrow> ((matrix, vec list) solution \<times> vec list) option" where
  "evaluate_rotation lattice_recip peaks index_error_tol vector_pair_index R =
     (let hkls = map (\<lambda>q. fractional lattice_recip (vec_mat q R)) peaks;
          rhkls = map rint3 hkls;
          ehkls = map2 abs_diff3 hkls rhkls;
          valid_peak_mask = map (\<lambda>e. max3 e < index_error_tol) ehkls;
          valid_peak_mask_count = length (filter (\<lambda>b. b) valid_peak_mask)
      in if 2 < valid_peak_mask_count then
           let error_mean = np_mean (entries (map fst (filter snd (zip ehkls valid_peak_mask))));
               num_peaks = length peaks;
               match_rate = (if num_peaks \<noteq> 0
                             then real valid_peak_mask_count / real num_peaks else 0)
           in Some (Solution R match_rate ehkls error_mean vector_pair_index, rhkls)
         else None)"

text \<open>\<^verbatim>\<open>itertools.combinations(ids, 2)\<close>.\<close>

fun combinations2 :: "'a list \<Rightarrow> ('a \<times> 'a) list" where
  "combinations2 [] = []"
| "combinations2 (x # xs) = map (Pair x) xs @ combinations2 xs"

text \<open>
  The body of the loop over the pairs of chosen peaks (lines 262 to 320). The angle
  \<^verbatim>\<open>get_angle_cartesian\<close> and the rotation \<^verbatim>\<open>get_rotation_matrix_between_vectors\<close>
  are functions of \<^verbatim>\<open>pyxem.utils.vector_utils\<close> and are parameters.
\<close>

definition pair_solutions ::
  "(vec \<Rightarrow> vec \<Rightarrow> real) \<Rightarrow> (vec \<Rightarrow> vec \<Rightarrow> vec \<Rightarrow> vec \<Rightarrow> matrix) \<Rightarrow> lattice \<Rightarrow> phase_entry
     \<Rightarrow> vec list \<Rightarrow> real \<Rightarrow> real \<Rightarrow> real \<Rightarrow> nat \<times> nat \<times> nat
     \<Rightarrow> ((matrix, vec list) solution \<times> vec list) list" where
  "pair_solutions get_angle_cartesian get_rotation_matrix_between_vectors lattice_recip phase
       peaks mag_tol angle_tol index_error_tol pair =
     (case pair of (vector_pair_index, i, j) \<Rightarrow>
        let a = peaks ! i; b = peaks ! j;
            swap = (np_linalg_norm a < np_linalg_norm b);
            q1 = (if swap then b else a);
            q2 = (if swap then a else b);
            q1_len = np_linalg_norm q1;
            q2_len = np_linalg_norm q2;
            angle = get_angle_cartesian q1 q2;
            tolerance_mask = map (\<lambda>m. case m of (m0, m1, m2) \<Rightarrow>
                \<bar>m0 - q1_len\<bar> < mag_tol \<and> \<bar>m1 - q2_len\<bar> < mag_tol \<and> \<bar>m2 - angle\<bar> < angle_tol)
              (measurements phase);
            reference_vectors = map (\<lambda>hk. case hk of (h1, h2) \<Rightarrow>
                (cartesian lattice_recip h1, cartesian lattice_recip h2))
              (map fst (filter snd (zip (indices phase) tolerance_mask)))
        in List.map_filter (\<lambda>ref. case ref of (ref_q1, ref_q2) \<Rightarrow>
               evaluate_rotation lattice_recip peaks index_error_tol vector_pair_index
                 (get_rotation_matrix_between_vectors q1 q2 ref_q1 ref_q2))
             reference_vectors)"

text \<open>The solutions of one phase, in the order in which the loop appends them.\<close>

definition phase_solutions ::
  "(vec \<Rightarrow> vec \<Rightarrow> real) \<Rightarrow> (vec \<Rightarrow> vec \<Rightarrow> vec \<Rightarrow> vec \<Rightarrow> matrix) \<Rightarrow> lattice \<Rightarrow> phase_entry
     \<Rightarrow> vec list \<Rightarrow> real \<Rightarrow> real \<Rightarrow> real \<Rightarrow> nat list
     \<Rightarrow> ((matrix, vec list) solution \<times> vec list) list" where
  "phase_solutions get_angle_cartesian get_rotation_matrix_between_vectors lattice_recip phase
       peaks mag_tol angle_tol index_error_tol unindexed_peak_ids =
     (let pairs = combinations2 unindexed_peak_ids
      in concat (map (pair_solutions get_angle_cartesian get_rotation_matrix_between_vectors
                        lattice_recip phase peaks mag_tol angle_tol index_error_tol)
                   (zip [0..<length pairs] pairs)))"

text \<open>The row that fills the unused slots (lines 332 to 338).\<close>

definition dummy_row :: "(matrix, vec list) vector_row" where
  "dummy_row = VectorRow 0 identity3 0 [] 1"

text \<open>
  The block of \<open>n_best\<close> rows of one phase (lines 322 to 338): the ranked solutions with
  the phase index in front, then the dummy rows.
\<close>

definition phase_block ::
  "(real list \<Rightarrow> nat list) \<Rightarrow> nat \<Rightarrow> nat \<Rightarrow> (matrix, vec list) solution list
     \<Rightarrow> (matrix, vec list) vector_row list" where
  "phase_block argsort n_best phase_index solutions =
     (let n_solutions = min n_best (length solutions);
          top_n = (if 0 < n_solutions
                   then sort_solutions argsort solutions (int n_solutions) else [])
      in map (\<lambda>s. VectorRow phase_index (s_rotation s) (s_match_rate s) (s_ehkls s)
                    (s_error_mean s)) top_n
         @ replicate (n_best - n_solutions) dummy_row)"

text \<open>
  The argument \<^verbatim>\<open>peaks\<close>: a numeric array of shape \<open>(N, 3)\<close>, or an object array of
  shape \<open>(n,)\<close> of further arrays.
\<close>

datatype peaks_array = Floats "vec list" | Objects "peaks_array list"

text \<open>
  The numpy and geometry functions that \<^verbatim>\<open>match_vectors\<close> calls, and the body of its
  loop over the phases for one phase: the rows of the phase and the rounded indices of its
  solutions. The norm of an object array along axis 1 raises an \<^verbatim>\<open>AxisError\<close>, which
  is a \<^verbatim>\<open>ValueError\<close>.
\<close>

record externals =
  np_argsort :: "real list \<Rightarrow> nat list"
  np_argpartition :: "real list \<Rightarrow> nat \<Rightarrow> nat list"
  angle_cartesian :: "vec \<Rightarrow> vec \<Rightarrow> real"
  rotation_between :: "vec \<Rightarrow> vec \<Rightarrow> vec \<Rightarrow> vec \<Rightarrow> matrix"

definition match_phase ::
  "externals \<Rightarrow> peaks_array \<Rightarrow> real \<Rightarrow> real \<Rightarrow> real \<Rightarrow> int \<Rightarrow> nat
     \<Rightarrow> nat \<times> phase_entry \<times> lattice
     \<Rightarrow> error + ((matrix, vec list) vector_row list \<times> vec list list)" where
  "match_phase ext peaks mag_tol angle_tol index_error_tol n_peaks_to_index n_best entry =
     (case entry of (phase_index, phase, lattice_recip) \<Rightarrow>
        (case peaks of
           Objects xs \<Rightarrow> Inl ValueError
         | Floats vs \<Rightarrow>
             bind_err (choose_peak_ids (np_argpartition ext) vs n_peaks_to_index)
               (\<lambda>unindexed_peak_ids.
                  let found = phase_solutions (angle_cartesian ext)
                        (rotation_between ext) lattice_recip phase vs
                        mag_tol angle_tol index_error_tol unindexed_peak_ids
                  in Inr (phase_block (np_argsort ext) n_best phase_index (map fst found),
                          map snd found))))"

text \<open>The loop over the phases: the blocks and the rounded indices are collected in the
  order of the library, and the first error ends the call.\<close>

fun match_phases ::
  "('a \<Rightarrow> error + ('r list \<times> 'h list)) \<Rightarrow> 'a list \<Rightarrow> error + ('r list \<times> 'h list)" where
  "match_phases f [] = Inr ([], [])"
| "match_phases f (x # xs) =
     bind_err (f x) (\<lambda>r. bind_err (match_phases f xs) (\<lambda>rs. Inr (fst r @ fst rs, snd r @ snd rs)))"

text \<open>
  \<^verbatim>\<open>match_vectors\<close>. The library is the list of the phases with their reciprocal
  lattices, \<^verbatim>\<open>zip(library.values(), library.structures)\<close>. A negative \<open>n_best\<close> is
  rejected by \<^verbatim>\<open>np.empty\<close> before the loop.
\<close>

definition match_vectors ::
  "externals \<Rightarrow> peaks_array \<Rightarrow> (phase_entry \<times> lattice) list \<Rightarrow> real \<Rightarrow> real \<Rightarrow> real \<Rightarrow> int \<Rightarrow> int
     \<Rightarrow> error + ((matrix, vec list) vector_row list \<times> vec list list)" where
  "match_vectors ext peaks library mag_tol angle_tol index_error_tol n_peaks_to_index n_best =
     (let peaks = (case peaks of Objects [x] \<Rightarrow> x | _ \<Rightarrow> peaks)
      in if n_best < 0 then Inl ValueError
         else match_phases
                (match_phase ext peaks mag_tol angle_tol index_error_tol n_peaks_to_index
                   (nat n_best))
                (zip [0..<length library] library))"




section \<open>Template correlation\<close>

text \<open>
  Indexing with a Python integer (a negative index counts from the end, an index out of
  range raises \<^verbatim>\<open>IndexError\<close>), and a list of results that fails with the first error.
\<close>

definition np_get :: "'a list \<Rightarrow> int \<Rightarrow> error + 'a" where
  "np_get xs i =
     (let n = int (length xs); j = (if i < 0 then i + n else i)
      in if 0 \<le> j \<and> j < n then Inr (xs ! nat j) else Inl IndexError)"

fun sequence_err :: "(error + 'a) list \<Rightarrow> error + 'a list" where
  "sequence_err [] = Inr []"
| "sequence_err (x # xs) =
     bind_err x (\<lambda>y. bind_err (sequence_err xs) (\<lambda>ys. Inr (y # ys)))"

text \<open>
  One simulated template of a library entry: its row of \<^verbatim>\<open>pixel_coords\<close> (pairs
  \<open>(x, y)\<close>), its row of \<^verbatim>\<open>intensities\<close> and its entry of \<^verbatim>\<open>pattern_norms\<close>. A
  library entry holds the list \<^verbatim>\<open>orientations\<close> and the grid of templates, one row per
  in-plane rotation and one column per orientation, as the arrays of the source have the
  same first two axes.
\<close>

record template =
  pixel_coords :: "(int \<times> int) list"
  intensities :: "real list"
  pattern_norm :: real

record library_entry =
  orientations :: "vec list"
  templates :: "template list list"

text \<open>\<^verbatim>\<open>image[y, x]\<close> and the correlation of one template (lines 96 to 98): the sum of
  the products of image intensity and template intensity, over the pattern norm. Reals stand
  for the floats; numpy divides by a zero pattern norm without an error (the result is
  \<^verbatim>\<open>inf\<close> or \<^verbatim>\<open>nan\<close>), so the properties below are stated for non-zero norms.\<close>

definition image_at :: "real list list \<Rightarrow> int \<times> int \<Rightarrow> error + real" where
  "image_at img xy = (case xy of (x, y) \<Rightarrow> bind_err (np_get img y) (\<lambda>row. np_get row x))"

definition template_correlation :: "real list list \<Rightarrow> template \<Rightarrow> error + real" where
  "template_correlation img t =
     bind_err (sequence_err (map (image_at img) (pixel_coords t)))
       (\<lambda>image_intensities.
          Inr (sum_list (map2 (*) image_intensities (intensities t)) / pattern_norm t))"

text \<open>\<^verbatim>\<open>correlations.ravel()\<close>: the correlations of the grid, row by row.\<close>

definition phase_correlations :: "real list list \<Rightarrow> library_entry \<Rightarrow> error + real list" where
  "phase_correlations img entry =
     sequence_err (map (template_correlation img) (concat (templates entry)))"

text \<open>
  The body of the loop over the phases (lines 90 to 112). With \<open>size\<close> correlations,
  \<^verbatim>\<open>argpartition(-n_largest)[-n_largest:]\<close> is the part from position
  \<open>size - n_largest\<close> on; the position is out of bounds when \<open>size < n_largest\<close> or
  \<open>size = 0\<close>. With \<open>n_largest = 0\<close> the slice holds all \<open>size\<close> indices, and the
  assignment of line 112 puts \<open>size\<close> correlations into no slot, which numpy refuses
  unless \<open>size = 1\<close>. \<^verbatim>\<open>np.unravel_index\<close> splits a flat index into the in-plane
  index and the orientation index.
\<close>

definition correlate_phase ::
  "(real list \<Rightarrow> nat list) \<Rightarrow> (real list \<Rightarrow> nat \<Rightarrow> nat list) \<Rightarrow> real list list \<Rightarrow> nat
     \<Rightarrow> nat \<times> library_entry \<Rightarrow> error + vec template_row list" where
  "correlate_phase argsort argpartition img n_largest entry =
     (case entry of (phase_index, library_entry) \<Rightarrow>
        bind_err (phase_correlations img library_entry) (\<lambda>correlations.
          let size = length correlations;
              n_inplane = length (templates library_entry);
              n_orientations = (case templates library_entry of [] \<Rightarrow> 0 | row # _ \<Rightarrow> length row)
          in if size = 0 then Inl ValueError
             else if n_largest = 0 then (if size = 1 then Inr [] else Inl ValueError)
             else if size < n_largest then Inl ValueError
             else
               let partitioned = drop (size - n_largest)
                                   (argpartition correlations (size - n_largest));
                   top_n_correlations = map (\<lambda>i. correlations ! i) partitioned;
                   top_n_indices = map (\<lambda>i. partitioned ! i) (rev (argsort top_n_correlations));
                   inplane_rotation_angle = 360 / real n_inplane
               in sequence_err
                    (map (\<lambda>index.
                            bind_err (np_get (orientations library_entry)
                                        (int (index mod n_orientations)))
                              (\<lambda>orientation. case orientation of (z1, x, z2) \<Rightarrow>
                                 Inr (TemplateRow phase_index
                                        (z1, x, z2 + real (index div n_orientations)
                                                      * inplane_rotation_angle)
                                        (correlations ! index))))
                       top_n_indices)))"

text \<open>
  \<^verbatim>\<open>correlate_library(image, library, n_largest, mask)\<close>; \<open>index_flag\<close> says whether
  \<^verbatim>\<open>mask == 1\<close>. The library is the list
  \<^verbatim>\<open>library.values()\<close>. The result array is created empty, so without the mask its
  rows hold nothing (\<open>None\<close>); a negative \<open>n_largest\<close> is rejected by \<^verbatim>\<open>np.empty\<close>.
\<close>

definition correlate_library ::
  "(real list \<Rightarrow> nat list) \<Rightarrow> (real list \<Rightarrow> nat \<Rightarrow> nat list) \<Rightarrow> real list list
     \<Rightarrow> library_entry list \<Rightarrow> int \<Rightarrow> bool \<Rightarrow> error + vec template_row option list" where
  "correlate_library argsort argpartition img library n_largest index_flag =
     (if n_largest < 0 then Inl ValueError
      else if index_flag then
        bind_err (sequence_err (map (correlate_phase argsort argpartition img (nat n_largest))
                                  (zip [0..<length library] library)))
          (\<lambda>blocks. Inr (map Some (concat blocks)))
      else Inr (replicate (length library * nat n_largest) None))"

section \<open>Facts about the numpy primitives\<close>

lemma np_argmax_first:
  assumes "i < length xs" and "\<forall>j<length xs. xs ! j \<le> xs ! i" and "\<forall>j<i. xs ! j < xs ! i"
  shows "np_argmax xs = Inr i"
proof -
  have ne: "xs \<noteq> []" using assms(1) by auto
  have "Max (set xs) = xs ! i"
  proof (rule Max_eqI)
    show "finite (set xs)" by simp
    show "\<And>y. y \<in> set xs \<Longrightarrow> y \<le> xs ! i" using assms(2) by (auto simp: in_set_conv_nth)
    show "xs ! i \<in> set xs" using assms(1) by simp
  qed
  moreover have "takeWhile (\<lambda>x. x \<noteq> xs ! i) xs = take i xs"
  proof (rule takeWhile_eq_take_P_nth)
    fix j assume "j < i" "j < length xs"
    then have "xs ! j < xs ! i" using assms(3) by blast
    then show "xs ! j \<noteq> xs ! i" by simp
  next
    show "\<not> xs ! i \<noteq> xs ! i" by simp
  qed
  ultimately show ?thesis using ne assms(1) by (simp add: np_argmax_def)
qed

lemma np_argmin_first:
  assumes "i < length xs" and "\<forall>j<length xs. xs ! i \<le> xs ! j" and "\<forall>j<i. xs ! i < xs ! j"
  shows "np_argmin xs = Inr i"
proof -
  have ne: "xs \<noteq> []" using assms(1) by auto
  have "Min (set xs) = xs ! i"
  proof (rule Min_eqI)
    show "finite (set xs)" by simp
    show "\<And>y. y \<in> set xs \<Longrightarrow> xs ! i \<le> y" using assms(2) by (auto simp: in_set_conv_nth)
    show "xs ! i \<in> set xs" using assms(1) by simp
  qed
  moreover have "takeWhile (\<lambda>x. x \<noteq> xs ! i) xs = take i xs"
  proof (rule takeWhile_eq_take_P_nth)
    fix j assume "j < i" "j < length xs"
    then have "xs ! i < xs ! j" using assms(3) by blast
    then show "xs ! j \<noteq> xs ! i" by simp
  next
    show "\<not> xs ! i \<noteq> xs ! i" by simp
  qed
  ultimately show ?thesis using ne assms(1) by (simp add: np_argmin_def)
qed

lemma unique_count_one:
  assumes "zs \<noteq> []" and "\<forall>r \<in> set zs. f r = p"
  shows "np_unique_count (map f zs) = 1"
proof -
  have "set (map f zs) = {p}" using assms by (cases zs) auto
  then have "card (set (map f zs)) = 1" by simp
  then show ?thesis by (simp add: np_unique_count_def length_remdups_card_conv)
qed

lemma np_partition_kth_short: "length xs < 2 \<Longrightarrow> np_partition_kth xs (- 2) = Inl ValueError"
  by (auto simp: np_partition_kth_def Let_def)

lemma np_partition_kth_short1: "length xs < 2 \<Longrightarrow> np_partition_kth xs 1 = Inl ValueError"
  by (auto simp: np_partition_kth_def Let_def)

lemma unique_count_multi:
  assumes "a \<in> set zs" and "b \<in> set zs" and "f a \<noteq> f b"
  shows "np_unique_count (map f zs) \<noteq> 1"
proof
  assume "np_unique_count (map f zs) = 1"
  then have "card (set (map f zs)) = 1"
    by (simp add: np_unique_count_def length_remdups_card_conv)
  then obtain p where "set (map f zs) = {p}" by (auto simp: card_1_singleton_iff)
  then have "f a = p" "f b = p" using assms(1,2) by auto
  then show False using assms(3) by simp
qed

lemma np_partition_kth_desc:
  assumes "sorted (rev xs)" and "2 \<le> length xs"
  shows "np_partition_kth xs (- 2) = Inr (xs ! 1)"
proof -
  have "sort xs = rev xs"
    by (rule properties_for_sort) (use assms(1) in auto)
  moreover have "rev xs ! (length xs - 2) = xs ! 1"
    using assms(2) by (simp add: rev_nth)
  moreover have "nat (int (length xs) - 2) = length xs - 2" by simp
  ultimately show ?thesis using assms(2)
    by (simp add: np_partition_kth_def Let_def)
qed

lemma np_partition_kth_asc:
  assumes "sorted xs" and "2 \<le> length xs"
  shows "np_partition_kth xs 1 = Inr (xs ! 1)"
  using assms by (simp add: np_partition_kth_def Let_def sorted_sort_id)

lemma np_max_attained:
  assumes "zs \<noteq> []"
  shows "\<exists>r \<in> set zs. np_max (map f zs) = Inr (f r) \<and> (\<forall>s \<in> set zs. f s \<le> f r)"
proof -
  have "Max (set (map f zs)) \<in> set (map f zs)" using assms by (intro Max_in) auto
  then obtain r where r: "r \<in> set zs" "f r = Max (set (map f zs))" by auto
  then have le: "\<forall>s \<in> set zs. f s \<le> f r" by simp
  have "np_max (map f zs) = Inr (f r)" using r(2) assms by (simp add: np_max_def)
  then show ?thesis using r(1) le by blast
qed

lemma np_min_attained:
  assumes "zs \<noteq> []"
  shows "\<exists>r \<in> set zs. np_min (map f zs) = Inr (f r) \<and> (\<forall>s \<in> set zs. f r \<le> f s)"
proof -
  have "Min (set (map f zs)) \<in> set (map f zs)" using assms by (intro Min_in) auto
  then obtain r where r: "r \<in> set zs" "f r = Min (set (map f zs))" by auto
  then have le: "\<forall>s \<in> set zs. f r \<le> f s" by simp
  have "np_min (map f zs) = Inr (f r)" using r(2) assms by (simp add: np_min_def)
  then show ?thesis using r(1) le by blast
qed

section \<open>The single-phase branch of the reducers\<close>

text \<open>
  Claim C3. When all candidate rows share one phase index and there are at least two
  rows, both reducers return the first row as the best match, and
  \<open>orientation_reliability\<close> is \<open>100 * (1 - ratio)\<close>, where the ratio is second
  correlation over best correlation for \<open>crystal_from_template_matching\<close> and best
  total error over second total error for \<open>crystal_from_vector_matching\<close>; the metrics
  have no key \<open>phase_reliability\<close>. For the correlations 0.9 and 0.5 the value is
  \<open>100 * (1 - 0.5 / 0.9) = 400 / 9\<close>, within 0.05 of 44.4. The denominators are taken
  non-zero, so that the quotient is the one the program computes.
\<close>

theorem single_phase_reliability:
  fixes zs :: "'o template_row list" and vs :: "('m, 'e) vector_row list"
  assumes "2 \<le> length zs" and "\<forall>r \<in> set zs. t_phase r = p"
    and "t_correlation (zs ! 0) \<noteq> 0"
    and "2 \<le> length vs" and "\<forall>r \<in> set vs. v_phase r = q"
    and "v_total_error (vs ! 1) \<noteq> 0"
  shows "(\<exists>m. crystal_from_template_matching zs = Inr (t_phase (zs ! 0), t_orientation (zs ! 0), m)
            \<and> m ''orientation_reliability'' =
                Some (100 * (1 - t_correlation (zs ! 1) / t_correlation (zs ! 0)))
            \<and> m ''phase_reliability'' = None)
       \<and> (\<exists>m. crystal_from_vector_matching mat2euler vs =
                Inr (v_phase (vs ! 0), mat2euler (v_rotation (vs ! 0)), m)
            \<and> m ''orientation_reliability'' =
                Some (Num (100 * (1 - v_total_error (vs ! 0) / v_total_error (vs ! 1))))
            \<and> m ''phase_reliability'' = None)
       \<and> (\<exists>m. crystal_from_template_matching [TemplateRow 0 o1 0.9, TemplateRow 0 o2 0.5] =
                Inr (0, o1, m)
            \<and> m ''orientation_reliability'' = Some (100 * (1 - 0.5 / 0.9))
            \<and> m ''orientation_reliability'' = Some (400 / 9)
            \<and> \<bar>400 / 9 - 44.4\<bar> < (0.05 :: real)
            \<and> m ''phase_reliability'' = None)"
proof -
  have u1: "np_unique_count (map t_phase zs) = 1"
    using assms(1,2) by (intro unique_count_one) auto
  have u2: "np_unique_count (map v_phase vs) = 1"
    using assms(4,5) by (intro unique_count_one) auto
  have a: "\<exists>m. crystal_from_template_matching zs = Inr (t_phase (zs ! 0), t_orientation (zs ! 0), m)
            \<and> m ''orientation_reliability'' =
                Some (100 * (1 - t_correlation (zs ! 1) / t_correlation (zs ! 0)))
            \<and> m ''phase_reliability'' = None"
    using u1 assms(1,3) by (simp add: crystal_from_template_matching_def bind_err_def py_div_def)
  have b: "\<exists>m. crystal_from_vector_matching mat2euler vs =
                Inr (v_phase (vs ! 0), mat2euler (v_rotation (vs ! 0)), m)
            \<and> m ''orientation_reliability'' =
                Some (Num (100 * (1 - v_total_error (vs ! 0) / v_total_error (vs ! 1))))
            \<and> m ''phase_reliability'' = None"
    using u2 assms(4,6) by (simp add: crystal_from_vector_matching_def bind_err_def py_div_def)
  have c: "\<exists>m. crystal_from_template_matching [TemplateRow 0 o1 0.9, TemplateRow 0 o2 0.5] =
                Inr (0, o1, m)
            \<and> m ''orientation_reliability'' = Some (100 * (1 - 0.5 / 0.9))
            \<and> m ''orientation_reliability'' = Some (400 / 9)
            \<and> \<bar>400 / 9 - 44.4\<bar> < (0.05 :: real)
            \<and> m ''phase_reliability'' = None"
    by (simp add: crystal_from_template_matching_def bind_err_def py_div_def np_unique_count_def)
  from a b c show ?thesis by blast
qed

theorem single_phase_reliability_witness:
  "2 \<le> length [TemplateRow 0 (1::nat) 0.9, TemplateRow 0 2 0.5]
   \<and> set (map t_phase [TemplateRow 0 (1::nat) 0.9, TemplateRow 0 2 0.5]) = {0}
   \<and> t_correlation ([TemplateRow 0 (1::nat) 0.9, TemplateRow 0 2 0.5] ! 0) \<noteq> 0
   \<and> 2 \<le> length [VectorRow 0 (1::nat) 1 (7::nat) 0.01, VectorRow 0 2 1 8 0.02]
   \<and> set (map v_phase [VectorRow 0 (1::nat) 1 (7::nat) 0.01, VectorRow 0 2 1 8 0.02]) = {0}
   \<and> v_total_error ([VectorRow 0 (1::nat) 1 (7::nat) 0.01, VectorRow 0 2 1 8 0.02] ! 1) \<noteq> 0
   \<and> (\<exists>m. crystal_from_template_matching [TemplateRow 0 (1::nat) 0.9, TemplateRow 0 2 0.5] =
             Inr (0, 1, m)
          \<and> m ''orientation_reliability'' = Some (400 / 9)
          \<and> m ''phase_reliability'' = None)
   \<and> (\<exists>m. crystal_from_vector_matching (\<lambda>R. R)
               [VectorRow 0 (1::nat) 1 (7::nat) 0.01, VectorRow 0 2 1 8 0.02] = Inr (0, 1, m)
          \<and> m ''orientation_reliability'' = Some (Num 50)
          \<and> m ''phase_reliability'' = None)"
proof -
  let ?zs = "[TemplateRow 0 (1::nat) 0.9, TemplateRow 0 2 0.5]"
  let ?vs = "[VectorRow 0 (1::nat) 1 (7::nat) 0.01, VectorRow 0 2 1 8 0.02]"
  have h1: "2 \<le> length ?zs" by simp
  have h2: "\<forall>r \<in> set ?zs. t_phase r = 0" by simp
  have h3: "t_correlation (?zs ! 0) \<noteq> 0" by simp
  have h4: "2 \<le> length ?vs" by simp
  have h5: "\<forall>r \<in> set ?vs. v_phase r = 0" by simp
  have h6: "v_total_error (?vs ! 1) \<noteq> 0" by simp
  from single_phase_reliability [OF h1 h2 h3 h4 h5 h6, where mat2euler = "\<lambda>R. R"
      and ?o1.0 = "1::nat" and ?o2.0 = "2::nat"]
  show ?thesis by simp
qed

section \<open>A winning phase without a runner-up\<close>

text \<open>
  Claim C9. Let the winning row be the first row of globally best score (highest
  correlation, lowest total error); in the single-phase branch its phase is the only
  phase. When the winning phase has fewer than two candidate rows, both reducers fail:
  the single-phase branch reads row 1 of a one-row array (\<open>IndexError\<close>), the
  multi-phase branch asks \<open>np.partition\<close> for a position outside a one-element array
  (\<open>ValueError\<close>). No result is returned.
\<close>

theorem runner_up_missing_fails:
  fixes zs :: "'o template_row list" and vs :: "('m, 'e) vector_row list"
  assumes "i < length zs"
    and "\<forall>j<length zs. t_correlation (zs ! j) \<le> t_correlation (zs ! i)"
    and "\<forall>j<i. t_correlation (zs ! j) < t_correlation (zs ! i)"
    and "length (filter (\<lambda>r. t_phase r = t_phase (zs ! i)) zs) < 2"
    and "k < length vs"
    and "\<forall>j<length vs. v_total_error (vs ! k) \<le> v_total_error (vs ! j)"
    and "\<forall>j<k. v_total_error (vs ! k) < v_total_error (vs ! j)"
    and "length (filter (\<lambda>r. v_phase r = v_phase (vs ! k)) vs) < 2"
  shows "crystal_from_template_matching zs \<in> {Inl IndexError, Inl ValueError}
       \<and> crystal_from_vector_matching mat2euler vs \<in> {Inl IndexError, Inl ValueError}"
proof -
  have am: "np_argmax (map t_correlation zs) = Inr i"
    using assms(1-3) by (intro np_argmax_first) auto
  have an: "np_argmin (map v_total_error vs) = Inr k"
    using assms(5-7) by (intro np_argmin_first) auto
  have t: "crystal_from_template_matching zs \<in> {Inl IndexError, Inl ValueError}"
  proof (cases "np_unique_count (map t_phase zs) = 1")
    case True
    then have "card (set (map t_phase zs)) = 1"
      by (simp add: np_unique_count_def length_remdups_card_conv)
    then obtain p where "set (map t_phase zs) = {p}" by (auto simp: card_1_singleton_iff)
    then have "\<forall>r \<in> set zs. t_phase r = p" by auto
    then have "filter (\<lambda>r. t_phase r = t_phase (zs ! i)) zs = zs"
      using assms(1) by (auto simp: filter_id_conv)
    then have "length zs < 2" using assms(4) by simp
    then show ?thesis using True by (simp add: crystal_from_template_matching_def)
  next
    case False
    then show ?thesis using am assms(4)
      by (simp add: crystal_from_template_matching_def bind_err_def Let_def np_partition_kth_short)
  qed
  have v: "crystal_from_vector_matching mat2euler vs \<in> {Inl IndexError, Inl ValueError}"
  proof (cases "np_unique_count (map v_phase vs) = 1")
    case True
    then have "card (set (map v_phase vs)) = 1"
      by (simp add: np_unique_count_def length_remdups_card_conv)
    then obtain p where "set (map v_phase vs) = {p}" by (auto simp: card_1_singleton_iff)
    then have "\<forall>r \<in> set vs. v_phase r = p" by auto
    then have "filter (\<lambda>r. v_phase r = v_phase (vs ! k)) vs = vs"
      using assms(5) by (auto simp: filter_id_conv)
    then have "length vs < 2" using assms(8) by simp
    then show ?thesis using True by (simp add: crystal_from_vector_matching_def)
  next
    case False
    then show ?thesis using an assms(8)
      by (simp add: crystal_from_vector_matching_def bind_err_def Let_def np_partition_kth_short1)
  qed
  from t v show ?thesis by simp
qed

theorem runner_up_missing_fails_witness:
  "0 < length [TemplateRow 0 (1::nat) 0.9, TemplateRow 1 2 0.5, TemplateRow 1 3 0.4]
   \<and> length (filter (\<lambda>r. t_phase r = 0)
         [TemplateRow 0 (1::nat) 0.9, TemplateRow 1 2 0.5, TemplateRow 1 3 0.4]) < 2
   \<and> length (filter (\<lambda>r. v_phase r = 0) [VectorRow 0 (1::nat) 1 (7::nat) 0.01]) < 2
   \<and> crystal_from_template_matching
         [TemplateRow 0 (1::nat) 0.9, TemplateRow 1 2 0.5, TemplateRow 1 3 0.4]
       \<in> {Inl IndexError, Inl ValueError}
   \<and> crystal_from_vector_matching (\<lambda>R. R) [VectorRow 0 (1::nat) 1 (7::nat) 0.01]
       \<in> {Inl IndexError, Inl ValueError}"
proof -
  let ?zs = "[TemplateRow 0 (1::nat) 0.9, TemplateRow 1 2 0.5, TemplateRow 1 3 0.4]"
  let ?vs = "[VectorRow 0 (1::nat) 1 (7::nat) 0.01]"
  have h1: "0 < length ?zs" by simp
  have h2: "\<forall>j<length ?zs. t_correlation (?zs ! j) \<le> t_correlation (?zs ! 0)"
    by (simp add: less_Suc_eq nth_Cons')
  have h3: "\<forall>j<0. t_correlation (?zs ! j) < t_correlation (?zs ! 0)" by simp
  have h4: "length (filter (\<lambda>r. t_phase r = t_phase (?zs ! 0)) ?zs) < 2" by simp
  have h5: "0 < length ?vs" by simp
  have h6: "\<forall>j<length ?vs. v_total_error (?vs ! 0) \<le> v_total_error (?vs ! j)" by simp
  have h7: "\<forall>j<0. v_total_error (?vs ! 0) < v_total_error (?vs ! j)" by simp
  have h8: "length (filter (\<lambda>r. v_phase r = v_phase (?vs ! 0)) ?vs) < 2" by simp
  from runner_up_missing_fails [OF h1 h2 h3 h4 h5 h6 h7 h8, where mat2euler = "\<lambda>R. R"]
  show ?thesis by simp
qed

section \<open>The multi-phase branch of the reducers\<close>

text \<open>
  The two reducers on an input with at least two phases. The winning row \<open>i\<close> is the
  first row of globally best score. The runner-up orientation is row 1 of the winning
  phase's block (the block is sorted best-first), the rival is a row of best score among
  the rows of all other phases.
\<close>

lemma template_multi:
  fixes zs :: "'o template_row list"
  assumes i: "i < length zs"
    and best: "\<forall>j<length zs. t_correlation (zs ! j) \<le> t_correlation (zs ! i)"
    and first: "\<forall>j<i. t_correlation (zs ! j) < t_correlation (zs ! i)"
    and other: "c \<in> set zs" "t_phase c \<noteq> t_phase (zs ! i)"
    and srt: "template_sorted zs"
    and two: "2 \<le> length (filter (\<lambda>r. t_phase r = t_phase (zs ! i)) zs)"
    and nz: "t_correlation (zs ! i) \<noteq> 0"
  shows "\<exists>m rival. crystal_from_template_matching zs = Inr (t_phase (zs ! i), t_orientation (zs ! i), m)
      \<and> m ''correlation'' = Some (t_correlation (zs ! i))
      \<and> m ''orientation_reliability'' =
           Some (100 * (1 - t_correlation (filter (\<lambda>r. t_phase r = t_phase (zs ! i)) zs ! 1)
                              / t_correlation (zs ! i)))
      \<and> rival \<in> set zs \<and> t_phase rival \<noteq> t_phase (zs ! i)
      \<and> (\<forall>r \<in> set zs. t_phase r \<noteq> t_phase (zs ! i) \<longrightarrow> t_correlation r \<le> t_correlation rival)
      \<and> m ''phase_reliability'' =
           Some (100 * (1 - t_correlation rival / t_correlation (zs ! i)))"
proof -
  let ?w = "t_phase (zs ! i)"
  let ?z = "filter (\<lambda>r. t_phase r = ?w) zs"
  let ?z' = "filter (\<lambda>r. t_phase r \<noteq> ?w) zs"
  have mem: "zs ! i \<in> set zs" using i by simp
  have u: "np_unique_count (map t_phase zs) \<noteq> 1"
    using unique_count_multi [OF other(1) mem] other(2) by blast
  have am: "np_argmax (map t_correlation zs) = Inr i"
    using i best first by (intro np_argmax_first) auto
  have "sorted (rev (map t_correlation ?z))"
    using srt mem by (auto simp: template_sorted_def)
  then have part: "np_partition_kth (map t_correlation ?z) (- 2) = Inr (map t_correlation ?z ! 1)"
    using two by (intro np_partition_kth_desc) auto
  have nth1: "map t_correlation ?z ! 1 = t_correlation (?z ! 1)"
    using two by (intro nth_map) auto
  have "?z' \<noteq> []" using other by (auto simp: filter_empty_conv)
  from np_max_attained [OF this, of t_correlation]
  obtain rival where rv: "rival \<in> set ?z'" "np_max (map t_correlation ?z') = Inr (t_correlation rival)"
    "\<forall>s \<in> set ?z'. t_correlation s \<le> t_correlation rival" by blast
  have "crystal_from_template_matching zs = Inr (?w, t_orientation (zs ! i),
          [''correlation'' \<mapsto> t_correlation (zs ! i),
           ''orientation_reliability'' \<mapsto> 100 * (1 - t_correlation (?z ! 1) / t_correlation (zs ! i)),
           ''phase_reliability'' \<mapsto> 100 * (1 - t_correlation rival / t_correlation (zs ! i))])"
    unfolding crystal_from_template_matching_def
    using u am part nth1 rv(2) nz by (simp add: bind_err_def py_div_def Let_def)
  moreover have "rival \<in> set zs" "t_phase rival \<noteq> ?w" using rv(1) by auto
  moreover have "\<forall>r \<in> set zs. t_phase r \<noteq> ?w \<longrightarrow> t_correlation r \<le> t_correlation rival"
    using rv(3) by auto
  ultimately show ?thesis by (intro exI conjI) (assumption | simp)+
qed

lemma vector_multi:
  fixes vs :: "('m, 'e) vector_row list"
  assumes i: "i < length vs"
    and best: "\<forall>j<length vs. v_total_error (vs ! i) \<le> v_total_error (vs ! j)"
    and first: "\<forall>j<i. v_total_error (vs ! i) < v_total_error (vs ! j)"
    and other: "c \<in> set vs" "v_phase c \<noteq> v_phase (vs ! i)"
    and srt: "vector_sorted vs"
    and two: "2 \<le> length (filter (\<lambda>r. v_phase r = v_phase (vs ! i)) vs)"
    and nz: "v_total_error (filter (\<lambda>r. v_phase r = v_phase (vs ! i)) vs ! 1) \<noteq> 0"
    and nz': "\<forall>r \<in> set vs. v_phase r \<noteq> v_phase (vs ! i) \<longrightarrow> v_total_error r \<noteq> 0"
  shows "\<exists>m rival. crystal_from_vector_matching mat2euler vs =
          Inr (v_phase (vs ! i), mat2euler (v_rotation (vs ! i)), m)
      \<and> m ''total_error'' = Some (Num (v_total_error (vs ! i)))
      \<and> m ''match_rate'' = Some (Num (v_match_rate (vs ! i)))
      \<and> m ''ehkls'' = Some (Arr (v_ehkls (vs ! i)))
      \<and> m ''orientation_reliability'' =
           Some (Num (100 * (1 - v_total_error (vs ! i)
                      / v_total_error (filter (\<lambda>r. v_phase r = v_phase (vs ! i)) vs ! 1))))
      \<and> rival \<in> set vs \<and> v_phase rival \<noteq> v_phase (vs ! i)
      \<and> (\<forall>r \<in> set vs. v_phase r \<noteq> v_phase (vs ! i) \<longrightarrow> v_total_error rival \<le> v_total_error r)
      \<and> m ''phase_reliability'' =
           Some (Num (100 * (1 - v_total_error (vs ! i) / v_total_error rival)))"
proof -
  let ?w = "v_phase (vs ! i)"
  let ?z = "filter (\<lambda>r. v_phase r = ?w) vs"
  let ?z' = "filter (\<lambda>r. v_phase r \<noteq> ?w) vs"
  have mem: "vs ! i \<in> set vs" using i by simp
  have u: "np_unique_count (map v_phase vs) \<noteq> 1"
    using unique_count_multi [OF other(1) mem] other(2) by blast
  have am: "np_argmin (map v_total_error vs) = Inr i"
    using i best first by (intro np_argmin_first) auto
  have "sorted (map v_total_error ?z)"
    using srt mem by (auto simp: vector_sorted_def)
  then have part: "np_partition_kth (map v_total_error ?z) 1 = Inr (map v_total_error ?z ! 1)"
    using two by (intro np_partition_kth_asc) auto
  have nth1: "map v_total_error ?z ! 1 = v_total_error (?z ! 1)"
    using two by (intro nth_map) auto
  have "?z' \<noteq> []" using other by (auto simp: filter_empty_conv)
  from np_min_attained [OF this, of v_total_error]
  obtain rival where rv: "rival \<in> set ?z'" "np_min (map v_total_error ?z') = Inr (v_total_error rival)"
    "\<forall>s \<in> set ?z'. v_total_error rival \<le> v_total_error s" by blast
  have rz: "v_total_error rival \<noteq> 0" using rv(1) nz' by auto
  have "crystal_from_vector_matching mat2euler vs = Inr (?w, mat2euler (v_rotation (vs ! i)),
          [''match_rate'' \<mapsto> Num (v_match_rate (vs ! i)),
           ''ehkls'' \<mapsto> Arr (v_ehkls (vs ! i)),
           ''total_error'' \<mapsto> Num (v_total_error (vs ! i)),
           ''orientation_reliability'' \<mapsto> Num (100 * (1 - v_total_error (vs ! i) / v_total_error (?z ! 1))),
           ''phase_reliability'' \<mapsto> Num (100 * (1 - v_total_error (vs ! i) / v_total_error rival))])"
    unfolding crystal_from_vector_matching_def
    using u am part nth1 rv(2) nz rz by (simp add: bind_err_def py_div_def Let_def)
  moreover have "rival \<in> set vs" "v_phase rival \<noteq> ?w" using rv(1) by auto
  moreover have "\<forall>r \<in> set vs. v_phase r \<noteq> ?w \<longrightarrow> v_total_error rival \<le> v_total_error r"
    using rv(3) by auto
  ultimately show ?thesis by (intro exI conjI) (assumption | simp)+
qed

text \<open>
  Claim C1. On a multi-phase input whose phases are sorted best-first and whose winning
  phase has at least two rows, \<open>crystal_from_template_matching\<close> returns the row of
  globally highest correlation and \<open>crystal_from_vector_matching\<close> the row of globally
  lowest total error; \<open>orientation_reliability\<close> compares it with the second row of the
  winning phase and \<open>phase_reliability\<close> with the best row of the other phases, as
  \<open>100 * (1 - second / best)\<close> for correlations and \<open>100 * (1 - best / second)\<close> for
  total errors (non-zero denominators). For total errors 0.01 and 0.02 in the winning
  phase and 0.05 in the competing phase the two metrics are 50 and 80.
\<close>

theorem multi_phase_reliability:
  fixes zs :: "'o template_row list" and vs :: "('m, 'e) vector_row list"
  assumes "i < length zs"
    and "\<forall>j<length zs. t_correlation (zs ! j) \<le> t_correlation (zs ! i)"
    and "\<forall>j<i. t_correlation (zs ! j) < t_correlation (zs ! i)"
    and "c \<in> set zs" and "t_phase c \<noteq> t_phase (zs ! i)"
    and "template_sorted zs"
    and "2 \<le> length (filter (\<lambda>r. t_phase r = t_phase (zs ! i)) zs)"
    and "t_correlation (zs ! i) \<noteq> 0"
    and "k < length vs"
    and "\<forall>j<length vs. v_total_error (vs ! k) \<le> v_total_error (vs ! j)"
    and "\<forall>j<k. v_total_error (vs ! k) < v_total_error (vs ! j)"
    and "d \<in> set vs" and "v_phase d \<noteq> v_phase (vs ! k)"
    and "vector_sorted vs"
    and "2 \<le> length (filter (\<lambda>r. v_phase r = v_phase (vs ! k)) vs)"
    and "v_total_error (filter (\<lambda>r. v_phase r = v_phase (vs ! k)) vs ! 1) \<noteq> 0"
    and "\<forall>r \<in> set vs. v_phase r \<noteq> v_phase (vs ! k) \<longrightarrow> v_total_error r \<noteq> 0"
  shows "(\<exists>m rival. crystal_from_template_matching zs =
              Inr (t_phase (zs ! i), t_orientation (zs ! i), m)
          \<and> m ''correlation'' = Some (t_correlation (zs ! i))
          \<and> m ''orientation_reliability'' =
               Some (100 * (1 - t_correlation (filter (\<lambda>r. t_phase r = t_phase (zs ! i)) zs ! 1)
                                  / t_correlation (zs ! i)))
          \<and> rival \<in> set zs \<and> t_phase rival \<noteq> t_phase (zs ! i)
          \<and> (\<forall>r \<in> set zs. t_phase r \<noteq> t_phase (zs ! i)
                 \<longrightarrow> t_correlation r \<le> t_correlation rival)
          \<and> m ''phase_reliability'' =
               Some (100 * (1 - t_correlation rival / t_correlation (zs ! i))))
       \<and> (\<exists>m rival. crystal_from_vector_matching mat2euler vs =
              Inr (v_phase (vs ! k), mat2euler (v_rotation (vs ! k)), m)
          \<and> m ''total_error'' = Some (Num (v_total_error (vs ! k)))
          \<and> m ''orientation_reliability'' =
               Some (Num (100 * (1 - v_total_error (vs ! k)
                          / v_total_error (filter (\<lambda>r. v_phase r = v_phase (vs ! k)) vs ! 1))))
          \<and> rival \<in> set vs \<and> v_phase rival \<noteq> v_phase (vs ! k)
          \<and> (\<forall>r \<in> set vs. v_phase r \<noteq> v_phase (vs ! k)
                 \<longrightarrow> v_total_error rival \<le> v_total_error r)
          \<and> m ''phase_reliability'' =
               Some (Num (100 * (1 - v_total_error (vs ! k) / v_total_error rival))))
       \<and> (\<exists>m. crystal_from_vector_matching mat2euler
              [VectorRow 0 R1 a1 e1 0.01, VectorRow 0 R2 a2 e2 0.02, VectorRow 1 R3 a3 e3 0.05] =
              Inr (0, mat2euler R1, m)
          \<and> m ''orientation_reliability'' = Some (Num (100 * (1 - 0.01 / 0.02)))
          \<and> m ''orientation_reliability'' = Some (Num 50)
          \<and> m ''phase_reliability'' = Some (Num (100 * (1 - 0.01 / 0.05)))
          \<and> m ''phase_reliability'' = Some (Num 80))"
proof -
  have t: "\<exists>m rival. crystal_from_template_matching zs =
              Inr (t_phase (zs ! i), t_orientation (zs ! i), m)
          \<and> m ''correlation'' = Some (t_correlation (zs ! i))
          \<and> m ''orientation_reliability'' =
               Some (100 * (1 - t_correlation (filter (\<lambda>r. t_phase r = t_phase (zs ! i)) zs ! 1)
                                  / t_correlation (zs ! i)))
          \<and> rival \<in> set zs \<and> t_phase rival \<noteq> t_phase (zs ! i)
          \<and> (\<forall>r \<in> set zs. t_phase r \<noteq> t_phase (zs ! i)
                 \<longrightarrow> t_correlation r \<le> t_correlation rival)
          \<and> m ''phase_reliability'' =
               Some (100 * (1 - t_correlation rival / t_correlation (zs ! i)))"
    by (rule template_multi [OF assms(1-8)])
  from vector_multi [OF assms(9-17), of mat2euler]
  obtain m rival where v: "crystal_from_vector_matching mat2euler vs =
              Inr (v_phase (vs ! k), mat2euler (v_rotation (vs ! k)), m)"
    "m ''total_error'' = Some (Num (v_total_error (vs ! k)))"
    "m ''orientation_reliability'' =
               Some (Num (100 * (1 - v_total_error (vs ! k)
                          / v_total_error (filter (\<lambda>r. v_phase r = v_phase (vs ! k)) vs ! 1))))"
    "rival \<in> set vs" "v_phase rival \<noteq> v_phase (vs ! k)"
    "\<forall>r \<in> set vs. v_phase r \<noteq> v_phase (vs ! k)
                 \<longrightarrow> v_total_error rival \<le> v_total_error r"
    "m ''phase_reliability'' =
               Some (Num (100 * (1 - v_total_error (vs ! k) / v_total_error rival)))"
    by blast
  have s: "\<exists>m. crystal_from_vector_matching mat2euler
              [VectorRow 0 R1 a1 e1 0.01, VectorRow 0 R2 a2 e2 0.02, VectorRow 1 R3 a3 e3 0.05] =
              Inr (0, mat2euler R1, m)
          \<and> m ''orientation_reliability'' = Some (Num (100 * (1 - 0.01 / 0.02)))
          \<and> m ''orientation_reliability'' = Some (Num 50)
          \<and> m ''phase_reliability'' = Some (Num (100 * (1 - 0.01 / 0.05)))
          \<and> m ''phase_reliability'' = Some (Num 80)"
    by (simp add: crystal_from_vector_matching_def np_unique_count_def np_argmin_def
        np_partition_kth_def np_min_def bind_err_def py_div_def Let_def)
  from t v s show ?thesis by blast
qed

theorem multi_phase_reliability_witness:
  "template_sorted [TemplateRow 0 (1::nat) 0.5, TemplateRow 0 2 0.4, TemplateRow 1 3 0.8,
       TemplateRow 1 4 0.6]
   \<and> vector_sorted [VectorRow 0 (1::nat) 1 (7::nat) 0.01, VectorRow 0 2 1 8 0.02,
       VectorRow 1 3 1 9 0.05]
   \<and> (\<exists>m. crystal_from_template_matching [TemplateRow 0 (1::nat) 0.5, TemplateRow 0 2 0.4,
            TemplateRow 1 3 0.8, TemplateRow 1 4 0.6] = Inr (1, 3, m)
        \<and> m ''correlation'' = Some 0.8
        \<and> m ''orientation_reliability'' = Some 25)
   \<and> (\<exists>m. crystal_from_vector_matching (\<lambda>R. R) [VectorRow 0 (1::nat) 1 (7::nat) 0.01,
            VectorRow 0 2 1 8 0.02, VectorRow 1 3 1 9 0.05] = Inr (0, 1, m)
        \<and> m ''total_error'' = Some (Num 0.01)
        \<and> m ''orientation_reliability'' = Some (Num 50))"
proof -
  let ?zs = "[TemplateRow 0 (1::nat) 0.5, TemplateRow 0 2 0.4, TemplateRow 1 3 0.8,
       TemplateRow 1 4 0.6]"
  let ?vs = "[VectorRow 0 (1::nat) 1 (7::nat) 0.01, VectorRow 0 2 1 8 0.02,
       VectorRow 1 3 1 9 0.05]"
  have h1: "2 < length ?zs" by simp
  have h2: "\<forall>j<length ?zs. t_correlation (?zs ! j) \<le> t_correlation (?zs ! 2)"
    by (simp add: less_Suc_eq nth_Cons')
  have h3: "\<forall>j<2. t_correlation (?zs ! j) < t_correlation (?zs ! 2)"
    by (simp add: less_Suc_eq nth_Cons' numeral_2_eq_2)
  have h4: "TemplateRow 0 1 0.5 \<in> set ?zs" by simp
  have h5: "t_phase (TemplateRow 0 (1::nat) 0.5) \<noteq> t_phase (?zs ! 2)" by simp
  have h6: "template_sorted ?zs" by (simp add: template_sorted_def)
  have h7: "2 \<le> length (filter (\<lambda>r. t_phase r = t_phase (?zs ! 2)) ?zs)" by simp
  have h8: "t_correlation (?zs ! 2) \<noteq> 0" by simp
  have g1: "0 < length ?vs" by simp
  have g2: "\<forall>j<length ?vs. v_total_error (?vs ! 0) \<le> v_total_error (?vs ! j)"
    by (simp add: less_Suc_eq nth_Cons')
  have g3: "\<forall>j<0. v_total_error (?vs ! 0) < v_total_error (?vs ! j)" by simp
  have g4: "VectorRow 1 3 1 9 0.05 \<in> set ?vs" by simp
  have g5: "v_phase (VectorRow 1 (3::nat) 1 (9::nat) 0.05) \<noteq> v_phase (?vs ! 0)" by simp
  have g6: "vector_sorted ?vs" by (simp add: vector_sorted_def)
  have g7: "2 \<le> length (filter (\<lambda>r. v_phase r = v_phase (?vs ! 0)) ?vs)" by simp
  have g8: "v_total_error (filter (\<lambda>r. v_phase r = v_phase (?vs ! 0)) ?vs ! 1) \<noteq> 0" by simp
  have g9: "\<forall>r \<in> set ?vs. v_phase r \<noteq> v_phase (?vs ! 0) \<longrightarrow> v_total_error r \<noteq> 0"
    by simp
  from multi_phase_reliability [OF h1 h2 h3 h4 h5 h6 h7 h8 g1 g2 g3 g4 g5 g6 g7 g8 g9,
      where mat2euler = "\<lambda>R. R" and ?R1.0 = "1::nat" and ?R2.0 = "2::nat" and ?R3.0 = "3::nat"
      and ?a1.0 = 1 and ?a2.0 = 1 and ?a3.0 = 1
      and ?e1.0 = "7::nat" and ?e2.0 = "8::nat" and ?e3.0 = "9::nat"]
  have "(\<exists>m. crystal_from_template_matching ?zs = Inr (1, 3, m)
        \<and> m ''correlation'' = Some 0.8
        \<and> m ''orientation_reliability'' = Some 25)
      \<and> (\<exists>m. crystal_from_vector_matching (\<lambda>R. R) ?vs = Inr (0, 1, m)
        \<and> m ''total_error'' = Some (Num 0.01)
        \<and> m ''orientation_reliability'' = Some (Num 50))"
    by (simp, blast)
  with h6 g6 show ?thesis by blast
qed

section \<open>Appending the rows of other phases\<close>

text \<open>
  The first index of the extremum, read back from \<open>np_argmax\<close> and \<open>np_argmin\<close>, and
  its stability when strictly worse entries are appended.
\<close>

lemma np_argmax_props:
  assumes "np_argmax xs = Inr i"
  shows "i < length xs \<and> (\<forall>j<length xs. xs ! j \<le> xs ! i) \<and> (\<forall>j<i. xs ! j < xs ! i)"
proof -
  let ?M = "Max (set xs)"
  let ?P = "\<lambda>x. x \<noteq> ?M"
  have ne: "xs \<noteq> []" using assms by (auto simp: np_argmax_def split: if_splits)
  have i: "i = length (takeWhile ?P xs)" using assms ne by (simp add: np_argmax_def)
  have mem: "?M \<in> set xs" using ne by (intro Max_in) auto
  have "length (takeWhile ?P xs) \<noteq> length xs"
  proof
    assume "length (takeWhile ?P xs) = length xs"
    then have "takeWhile ?P xs = xs" using takeWhile_eq_take [of ?P xs] by simp
    then have "\<forall>x \<in> set xs. ?P x" by (simp only: takeWhile_eq_all_conv)
    then show False using mem by blast
  qed
  then have lt: "i < length xs" unfolding i using length_takeWhile_le [of ?P xs] by simp
  then have at: "xs ! i = ?M" using nth_length_takeWhile [of ?P xs] unfolding i by simp
  have le: "\<forall>j<length xs. xs ! j \<le> xs ! i" unfolding at by simp
  have "\<forall>j<i. xs ! j < xs ! i"
  proof (intro allI impI)
    fix j assume j: "j < i"
    then have "takeWhile ?P xs ! j = xs ! j" unfolding i by (rule takeWhile_nth)
    moreover have "takeWhile ?P xs ! j \<in> set (takeWhile ?P xs)" using j unfolding i by simp
    ultimately have "xs ! j \<noteq> ?M" using set_takeWhileD by metis
    moreover have "xs ! j \<le> ?M" using j lt by simp
    ultimately show "xs ! j < xs ! i" unfolding at by simp
  qed
  with lt le show ?thesis by blast
qed

lemma np_argmin_props:
  assumes "np_argmin xs = Inr i"
  shows "i < length xs \<and> (\<forall>j<length xs. xs ! i \<le> xs ! j) \<and> (\<forall>j<i. xs ! i < xs ! j)"
proof -
  let ?M = "Min (set xs)"
  let ?P = "\<lambda>x. x \<noteq> ?M"
  have ne: "xs \<noteq> []" using assms by (auto simp: np_argmin_def split: if_splits)
  have i: "i = length (takeWhile ?P xs)" using assms ne by (simp add: np_argmin_def)
  have mem: "?M \<in> set xs" using ne by (intro Min_in) auto
  have "length (takeWhile ?P xs) \<noteq> length xs"
  proof
    assume "length (takeWhile ?P xs) = length xs"
    then have "takeWhile ?P xs = xs" using takeWhile_eq_take [of ?P xs] by simp
    then have "\<forall>x \<in> set xs. ?P x" by (simp only: takeWhile_eq_all_conv)
    then show False using mem by blast
  qed
  then have lt: "i < length xs" unfolding i using length_takeWhile_le [of ?P xs] by simp
  then have at: "xs ! i = ?M" using nth_length_takeWhile [of ?P xs] unfolding i by simp
  have le: "\<forall>j<length xs. xs ! i \<le> xs ! j" unfolding at by simp
  have "\<forall>j<i. xs ! i < xs ! j"
  proof (intro allI impI)
    fix j assume j: "j < i"
    then have "takeWhile ?P xs ! j = xs ! j" unfolding i by (rule takeWhile_nth)
    moreover have "takeWhile ?P xs ! j \<in> set (takeWhile ?P xs)" using j unfolding i by simp
    ultimately have "xs ! j \<noteq> ?M" using set_takeWhileD by metis
    moreover have "?M \<le> xs ! j" using j lt by simp
    ultimately show "xs ! i < xs ! j" unfolding at by simp
  qed
  with lt le show ?thesis by blast
qed

lemma np_argmax_append:
  assumes "np_argmax xs = Inr i" and "\<forall>y \<in> set ys. y < xs ! i"
  shows "np_argmax (xs @ ys) = Inr i"
proof -
  from np_argmax_props [OF assms(1)]
  have p: "i < length xs" "\<forall>j<length xs. xs ! j \<le> xs ! i" "\<forall>j<i. xs ! j < xs ! i" by auto
  have a: "(xs @ ys) ! i = xs ! i" using p(1) by (simp add: nth_append)
  show ?thesis
  proof (rule np_argmax_first)
    show "i < length (xs @ ys)" using p(1) by simp
    show "\<forall>j<length (xs @ ys). (xs @ ys) ! j \<le> (xs @ ys) ! i"
    proof (intro allI impI)
      fix j assume "j < length (xs @ ys)"
      then show "(xs @ ys) ! j \<le> (xs @ ys) ! i"
        unfolding a using p(2) assms(2) by (cases "j < length xs") (auto simp: nth_append less_imp_le)
    qed
    show "\<forall>j<i. (xs @ ys) ! j < (xs @ ys) ! i"
      unfolding a using p(1,3) by (simp add: nth_append)
  qed
qed

lemma np_argmin_append:
  assumes "np_argmin xs = Inr i" and "\<forall>y \<in> set ys. xs ! i < y"
  shows "np_argmin (xs @ ys) = Inr i"
proof -
  from np_argmin_props [OF assms(1)]
  have p: "i < length xs" "\<forall>j<length xs. xs ! i \<le> xs ! j" "\<forall>j<i. xs ! i < xs ! j" by auto
  have a: "(xs @ ys) ! i = xs ! i" using p(1) by (simp add: nth_append)
  show ?thesis
  proof (rule np_argmin_first)
    show "i < length (xs @ ys)" using p(1) by simp
    show "\<forall>j<length (xs @ ys). (xs @ ys) ! i \<le> (xs @ ys) ! j"
    proof (intro allI impI)
      fix j assume "j < length (xs @ ys)"
      then show "(xs @ ys) ! i \<le> (xs @ ys) ! j"
        unfolding a using p(2) assms(2) by (cases "j < length xs") (auto simp: nth_append less_imp_le)
    qed
    show "\<forall>j<i. (xs @ ys) ! i < (xs @ ys) ! j"
      unfolding a using p(1,3) by (simp add: nth_append)
  qed
qed

text \<open>
  What a successful call of a reducer says about its input, branch by branch, and the
  multi-phase branch run forwards from the values of its intermediate steps.
\<close>

lemma template_multi_inv:
  assumes "np_unique_count (map t_phase zs) \<noteq> 1"
    and "crystal_from_template_matching zs = Inr (p, ori, m)"
  shows "\<exists>i so sp. np_argmax (map t_correlation zs) = Inr i
      \<and> p = t_phase (zs ! i) \<and> ori = t_orientation (zs ! i)
      \<and> np_partition_kth (map t_correlation (filter (\<lambda>r. t_phase r = p) zs)) (- 2) = Inr so
      \<and> np_max (map t_correlation (filter (\<lambda>r. t_phase r \<noteq> p) zs)) = Inr sp
      \<and> t_correlation (zs ! i) \<noteq> 0
      \<and> m = [''correlation'' \<mapsto> t_correlation (zs ! i),
             ''orientation_reliability'' \<mapsto> 100 * (1 - so / t_correlation (zs ! i)),
             ''phase_reliability'' \<mapsto> 100 * (1 - sp / t_correlation (zs ! i))]"
  using assms unfolding crystal_from_template_matching_def
  by (auto simp: bind_err_def py_div_def Let_def split: sum.splits if_splits)

lemma template_multi_run:
  assumes "np_unique_count (map t_phase zs) \<noteq> 1"
    and "np_argmax (map t_correlation zs) = Inr i"
    and "np_partition_kth (map t_correlation (filter (\<lambda>r. t_phase r = t_phase (zs ! i)) zs)) (- 2) = Inr so"
    and "np_max (map t_correlation (filter (\<lambda>r. t_phase r \<noteq> t_phase (zs ! i)) zs)) = Inr sp"
    and "t_correlation (zs ! i) \<noteq> 0"
  shows "crystal_from_template_matching zs = Inr (t_phase (zs ! i), t_orientation (zs ! i),
           [''correlation'' \<mapsto> t_correlation (zs ! i),
            ''orientation_reliability'' \<mapsto> 100 * (1 - so / t_correlation (zs ! i)),
            ''phase_reliability'' \<mapsto> 100 * (1 - sp / t_correlation (zs ! i))])"
  unfolding crystal_from_template_matching_def
  using assms by (simp add: bind_err_def py_div_def Let_def)

lemma template_single_inv:
  assumes "np_unique_count (map t_phase zs) = 1"
    and "crystal_from_template_matching zs = Inr (p, ori, m)"
  shows "2 \<le> length zs \<and> p = t_phase (zs ! 0) \<and> ori = t_orientation (zs ! 0)
      \<and> t_correlation (zs ! 0) \<noteq> 0
      \<and> m = [''correlation'' \<mapsto> t_correlation (zs ! 0),
             ''orientation_reliability'' \<mapsto>
                100 * (1 - t_correlation (zs ! 1) / t_correlation (zs ! 0))]"
  using assms unfolding crystal_from_template_matching_def
  by (auto simp: bind_err_def py_div_def Let_def split: sum.splits if_splits)

lemma unique_count_one_all:
  assumes "np_unique_count (map f zs) = 1"
  shows "\<forall>r \<in> set zs. \<forall>s \<in> set zs. f r = f s"
proof -
  have "card (set (map f zs)) = 1"
    using assms by (simp add: np_unique_count_def length_remdups_card_conv)
  then obtain p where "set (map f zs) = {p}" by (auto simp: card_1_singleton_iff)
  then have "\<forall>r \<in> set zs. f r = p" by auto
  then show ?thesis by simp
qed

lemma template_extend:
  fixes zs ns :: "'o template_row list"
  assumes ok: "crystal_from_template_matching zs = Inr (p, ori, m)"
    and c: "m ''correlation'' = Some c"
    and srt: "template_sorted zs"
    and ph: "\<forall>r \<in> set ns. t_phase r \<noteq> p"
    and worse: "\<forall>r \<in> set ns. t_correlation r < c"
    and ne: "ns \<noteq> []"
  shows "\<exists>m'. crystal_from_template_matching (zs @ ns) = Inr (p, ori, m')
           \<and> (\<forall>k. k \<noteq> ''phase_reliability'' \<longrightarrow> m' k = m k)"
proof -
  obtain n where n: "n \<in> set ns" using ne by (cases ns) auto
  have "\<exists>i so. i < length zs \<and> np_argmax (map t_correlation (zs @ ns)) = Inr i
      \<and> p = t_phase (zs ! i) \<and> ori = t_orientation (zs ! i) \<and> t_correlation (zs ! i) \<noteq> 0
      \<and> np_partition_kth (map t_correlation (filter (\<lambda>r. t_phase r = p) zs)) (- 2) = Inr so
      \<and> (\<forall>k. k \<noteq> ''phase_reliability'' \<longrightarrow>
            m k = [''correlation'' \<mapsto> t_correlation (zs ! i),
                   ''orientation_reliability'' \<mapsto> 100 * (1 - so / t_correlation (zs ! i))] k)"
  proof (cases "np_unique_count (map t_phase zs) = 1")
    case True
    from template_single_inv [OF True ok]
    have s: "2 \<le> length zs" "p = t_phase (zs ! 0)" "ori = t_orientation (zs ! 0)"
      "t_correlation (zs ! 0) \<noteq> 0"
      "m = [''correlation'' \<mapsto> t_correlation (zs ! 0),
             ''orientation_reliability'' \<mapsto>
                100 * (1 - t_correlation (zs ! 1) / t_correlation (zs ! 0))]" by auto
    have c0: "c = t_correlation (zs ! 0)" using c s(5) by simp
    have l0: "0 < length zs" using s(1) by linarith
    have m0: "map t_correlation zs ! 0 = t_correlation (zs ! 0)" using l0 by (rule nth_map)
    have a0: "map t_correlation (zs @ ns) ! 0 = t_correlation (zs ! 0)"
      using l0 by (simp add: nth_append)
    have z0: "zs ! 0 \<in> set zs" using l0 by (rule nth_mem)
    have all: "\<forall>r \<in> set zs. t_phase r = p"
      using unique_count_one_all [OF True] z0 s(2) by blast
    then have blk: "filter (\<lambda>r. t_phase r = p) zs = zs" by (simp add: filter_id_conv)
    have "p \<in> set (map t_phase zs)" using z0 s(2) by force
    then have sr: "sorted (rev (map t_correlation zs))"
      using srt blk unfolding template_sorted_def by (metis (mono_tags, lifting))
    have le: "\<forall>j<length zs. t_correlation (zs ! j) \<le> t_correlation (zs ! 0)"
    proof (intro allI impI)
      fix j assume j: "j < length zs"
      then have "map t_correlation zs ! j \<le> map t_correlation zs ! 0"
        using sorted_rev_nth_mono [OF sr, of 0 j] by simp
      then show "t_correlation (zs ! j) \<le> t_correlation (zs ! 0)" using j m0 by simp
    qed
    have am: "np_argmax (map t_correlation (zs @ ns)) = Inr 0"
    proof (rule np_argmax_first)
      show "0 < length (map t_correlation (zs @ ns))" using l0 by simp
      show "\<forall>j<length (map t_correlation (zs @ ns)).
              map t_correlation (zs @ ns) ! j \<le> map t_correlation (zs @ ns) ! 0"
      proof (intro allI impI)
        fix j assume j: "j < length (map t_correlation (zs @ ns))"
        then have jl: "j < length (zs @ ns)" by simp
        have jm: "map t_correlation (zs @ ns) ! j = t_correlation ((zs @ ns) ! j)"
          using jl by (rule nth_map)
        show "map t_correlation (zs @ ns) ! j \<le> map t_correlation (zs @ ns) ! 0"
          unfolding a0 jm
        proof (cases "j < length zs")
          case True
          then have "(zs @ ns) ! j = zs ! j" by (simp add: nth_append)
          then show "t_correlation ((zs @ ns) ! j) \<le> t_correlation (zs ! 0)"
            using le True by simp
        next
          case False
          then have "(zs @ ns) ! j \<in> set ns" using jl by (simp add: nth_append)
          then have "t_correlation ((zs @ ns) ! j) < t_correlation (zs ! 0)"
            using worse c0 by blast
          then show "t_correlation ((zs @ ns) ! j) \<le> t_correlation (zs ! 0)" by simp
        qed
      qed
      show "\<forall>j<0. map t_correlation (zs @ ns) ! j < map t_correlation (zs @ ns) ! 0" by simp
    qed
    have part: "np_partition_kth (map t_correlation (filter (\<lambda>r. t_phase r = p) zs)) (- 2)
        = Inr (t_correlation (zs ! 1))"
      unfolding blk using np_partition_kth_desc [OF sr] s(1) by simp
    have "0 < length zs \<and> np_argmax (map t_correlation (zs @ ns)) = Inr 0
      \<and> p = t_phase (zs ! 0) \<and> ori = t_orientation (zs ! 0) \<and> t_correlation (zs ! 0) \<noteq> 0
      \<and> np_partition_kth (map t_correlation (filter (\<lambda>r. t_phase r = p) zs)) (- 2)
          = Inr (t_correlation (zs ! 1))
      \<and> (\<forall>k. k \<noteq> ''phase_reliability'' \<longrightarrow>
            m k = [''correlation'' \<mapsto> t_correlation (zs ! 0),
                   ''orientation_reliability'' \<mapsto>
                      100 * (1 - t_correlation (zs ! 1) / t_correlation (zs ! 0))] k)"
      using l0 am s(2,3,4) part s(5) by blast
    then show ?thesis by blast
  next
    case False
    from template_multi_inv [OF False ok]
    obtain i so sp where s: "np_argmax (map t_correlation zs) = Inr i"
      "p = t_phase (zs ! i)" "ori = t_orientation (zs ! i)"
      "np_partition_kth (map t_correlation (filter (\<lambda>r. t_phase r = p) zs)) (- 2) = Inr so"
      "t_correlation (zs ! i) \<noteq> 0"
      "m = [''correlation'' \<mapsto> t_correlation (zs ! i),
             ''orientation_reliability'' \<mapsto> 100 * (1 - so / t_correlation (zs ! i)),
             ''phase_reliability'' \<mapsto> 100 * (1 - sp / t_correlation (zs ! i))]" by blast
    have il: "i < length zs" using np_argmax_props [OF s(1)] by simp
    have c0: "c = t_correlation (zs ! i)" using c s(6) by simp
    have "\<forall>y \<in> set (map t_correlation ns). y < map t_correlation zs ! i"
      using worse c0 il by auto
    from np_argmax_append [OF s(1) this]
    have am: "np_argmax (map t_correlation (zs @ ns)) = Inr i" by simp
    have "\<forall>k. k \<noteq> ''phase_reliability'' \<longrightarrow>
            m k = [''correlation'' \<mapsto> t_correlation (zs ! i),
                   ''orientation_reliability'' \<mapsto> 100 * (1 - so / t_correlation (zs ! i))] k"
      unfolding s(6) by simp
    then have "i < length zs \<and> np_argmax (map t_correlation (zs @ ns)) = Inr i
      \<and> p = t_phase (zs ! i) \<and> ori = t_orientation (zs ! i) \<and> t_correlation (zs ! i) \<noteq> 0
      \<and> np_partition_kth (map t_correlation (filter (\<lambda>r. t_phase r = p) zs)) (- 2) = Inr so
      \<and> (\<forall>k. k \<noteq> ''phase_reliability'' \<longrightarrow>
            m k = [''correlation'' \<mapsto> t_correlation (zs ! i),
                   ''orientation_reliability'' \<mapsto> 100 * (1 - so / t_correlation (zs ! i))] k)"
      using il am s(2,3,5,4) by blast
    then show ?thesis by blast
  qed
  then obtain i so where s: "i < length zs" "np_argmax (map t_correlation (zs @ ns)) = Inr i"
      "p = t_phase (zs ! i)" "ori = t_orientation (zs ! i)" "t_correlation (zs ! i) \<noteq> 0"
      "np_partition_kth (map t_correlation (filter (\<lambda>r. t_phase r = p) zs)) (- 2) = Inr so"
      "\<forall>k. k \<noteq> ''phase_reliability'' \<longrightarrow>
            m k = [''correlation'' \<mapsto> t_correlation (zs ! i),
                   ''orientation_reliability'' \<mapsto> 100 * (1 - so / t_correlation (zs ! i))] k"
    by blast
  have at: "(zs @ ns) ! i = zs ! i" using s(1) by (simp add: nth_append)
  have zi: "zs ! i \<in> set (zs @ ns)" using s(1) by simp
  have nn: "n \<in> set (zs @ ns)" using n by simp
  have u: "np_unique_count (map t_phase (zs @ ns)) \<noteq> 1"
    using unique_count_multi [OF nn zi, of t_phase] ph n s(3) by blast
  have blk: "filter (\<lambda>r. t_phase r = t_phase ((zs @ ns) ! i)) (zs @ ns)
      = filter (\<lambda>r. t_phase r = p) zs"
    unfolding at using ph s(3) by (simp add: filter_empty_conv)
  have "filter (\<lambda>r. t_phase r \<noteq> t_phase ((zs @ ns) ! i)) (zs @ ns) \<noteq> []"
    unfolding at using ph n s(3) by (auto simp: filter_empty_conv)
  then obtain sp where sp: "np_max (map t_correlation
      (filter (\<lambda>r. t_phase r \<noteq> t_phase ((zs @ ns) ! i)) (zs @ ns))) = Inr sp"
    by (simp add: np_max_def)
  have part: "np_partition_kth (map t_correlation
      (filter (\<lambda>r. t_phase r = t_phase ((zs @ ns) ! i)) (zs @ ns))) (- 2) = Inr so"
    unfolding blk by (rule s(6))
  have nz: "t_correlation ((zs @ ns) ! i) \<noteq> 0" unfolding at by (rule s(5))
  from template_multi_run [OF u s(2) part sp nz]
  have "crystal_from_template_matching (zs @ ns) = Inr (p, ori,
           [''correlation'' \<mapsto> t_correlation (zs ! i),
            ''orientation_reliability'' \<mapsto> 100 * (1 - so / t_correlation (zs ! i)),
            ''phase_reliability'' \<mapsto> 100 * (1 - sp / t_correlation (zs ! i))])"
    unfolding at using s(3,4) by simp
  moreover have "\<forall>k. k \<noteq> ''phase_reliability'' \<longrightarrow>
       [''correlation'' \<mapsto> t_correlation (zs ! i),
        ''orientation_reliability'' \<mapsto> 100 * (1 - so / t_correlation (zs ! i)),
        ''phase_reliability'' \<mapsto> 100 * (1 - sp / t_correlation (zs ! i))] k = m k"
    using s(7) by simp
  ultimately show ?thesis by blast
qed

lemma vector_multi_inv:
  assumes "np_unique_count (map v_phase vs) \<noteq> 1"
    and "crystal_from_vector_matching mat2euler vs = Inr (p, ori, m)"
  shows "\<exists>i so sp. np_argmin (map v_total_error vs) = Inr i
      \<and> p = v_phase (vs ! i) \<and> ori = mat2euler (v_rotation (vs ! i))
      \<and> np_partition_kth (map v_total_error (filter (\<lambda>r. v_phase r = p) vs)) 1 = Inr so
      \<and> np_min (map v_total_error (filter (\<lambda>r. v_phase r \<noteq> p) vs)) = Inr sp
      \<and> so \<noteq> 0 \<and> sp \<noteq> 0
      \<and> m = [''match_rate'' \<mapsto> Num (v_match_rate (vs ! i)),
             ''ehkls'' \<mapsto> Arr (v_ehkls (vs ! i)),
             ''total_error'' \<mapsto> Num (v_total_error (vs ! i)),
             ''orientation_reliability'' \<mapsto> Num (100 * (1 - v_total_error (vs ! i) / so)),
             ''phase_reliability'' \<mapsto> Num (100 * (1 - v_total_error (vs ! i) / sp))]"
  using assms unfolding crystal_from_vector_matching_def
  by (auto simp: bind_err_def py_div_def Let_def split: sum.splits if_splits)

lemma vector_multi_run:
  assumes "np_unique_count (map v_phase vs) \<noteq> 1"
    and "np_argmin (map v_total_error vs) = Inr i"
    and "np_partition_kth (map v_total_error (filter (\<lambda>r. v_phase r = v_phase (vs ! i)) vs)) 1 = Inr so"
    and "np_min (map v_total_error (filter (\<lambda>r. v_phase r \<noteq> v_phase (vs ! i)) vs)) = Inr sp"
    and "so \<noteq> 0" and "sp \<noteq> 0"
  shows "crystal_from_vector_matching mat2euler vs =
          Inr (v_phase (vs ! i), mat2euler (v_rotation (vs ! i)),
            [''match_rate'' \<mapsto> Num (v_match_rate (vs ! i)),
             ''ehkls'' \<mapsto> Arr (v_ehkls (vs ! i)),
             ''total_error'' \<mapsto> Num (v_total_error (vs ! i)),
             ''orientation_reliability'' \<mapsto> Num (100 * (1 - v_total_error (vs ! i) / so)),
             ''phase_reliability'' \<mapsto> Num (100 * (1 - v_total_error (vs ! i) / sp))])"
  unfolding crystal_from_vector_matching_def
  using assms by (simp add: bind_err_def py_div_def Let_def)

lemma vector_single_inv:
  assumes "np_unique_count (map v_phase vs) = 1"
    and "crystal_from_vector_matching mat2euler vs = Inr (p, ori, m)"
  shows "2 \<le> length vs \<and> p = v_phase (vs ! 0) \<and> ori = mat2euler (v_rotation (vs ! 0))
      \<and> v_total_error (vs ! 1) \<noteq> 0
      \<and> m = [''match_rate'' \<mapsto> Num (v_match_rate (vs ! 0)),
             ''ehkls'' \<mapsto> Arr (v_ehkls (vs ! 0)),
             ''total_error'' \<mapsto> Num (v_total_error (vs ! 0)),
             ''orientation_reliability'' \<mapsto>
                Num (100 * (1 - v_total_error (vs ! 0) / v_total_error (vs ! 1)))]"
  using assms unfolding crystal_from_vector_matching_def
  by (auto simp: bind_err_def py_div_def Let_def split: sum.splits if_splits)

lemma vector_extend:
  fixes vs ns :: "('m, 'e) vector_row list"
  assumes ok: "crystal_from_vector_matching mat2euler vs = Inr (p, ori, m)"
    and c: "m ''total_error'' = Some (Num c)"
    and srt: "vector_sorted vs"
    and ph: "\<forall>r \<in> set ns. v_phase r \<noteq> p"
    and worse: "\<forall>r \<in> set ns. c < v_total_error r"
    and nonneg: "0 \<le> c"
    and ne: "ns \<noteq> []"
  shows "\<exists>m'. crystal_from_vector_matching mat2euler (vs @ ns) = Inr (p, ori, m')
           \<and> (\<forall>k. k \<noteq> ''phase_reliability'' \<longrightarrow> m' k = m k)"
proof -
  obtain n where n: "n \<in> set ns" using ne by (cases ns) auto
  have "\<exists>i so. i < length vs \<and> np_argmin (map v_total_error (vs @ ns)) = Inr i
      \<and> p = v_phase (vs ! i) \<and> ori = mat2euler (v_rotation (vs ! i)) \<and> so \<noteq> 0
      \<and> np_partition_kth (map v_total_error (filter (\<lambda>r. v_phase r = p) vs)) 1 = Inr so
      \<and> (\<forall>r \<in> set (filter (\<lambda>r. v_phase r \<noteq> p) vs). 0 < v_total_error r)
      \<and> (\<forall>k. k \<noteq> ''phase_reliability'' \<longrightarrow>
            m k = [''match_rate'' \<mapsto> Num (v_match_rate (vs ! i)),
                   ''ehkls'' \<mapsto> Arr (v_ehkls (vs ! i)),
                   ''total_error'' \<mapsto> Num (v_total_error (vs ! i)),
                   ''orientation_reliability'' \<mapsto>
                      Num (100 * (1 - v_total_error (vs ! i) / so))] k)"
  proof (cases "np_unique_count (map v_phase vs) = 1")
    case True
    from vector_single_inv [OF True ok]
    have s: "2 \<le> length vs" "p = v_phase (vs ! 0)" "ori = mat2euler (v_rotation (vs ! 0))"
      "v_total_error (vs ! 1) \<noteq> 0"
      "m = [''match_rate'' \<mapsto> Num (v_match_rate (vs ! 0)),
             ''ehkls'' \<mapsto> Arr (v_ehkls (vs ! 0)),
             ''total_error'' \<mapsto> Num (v_total_error (vs ! 0)),
             ''orientation_reliability'' \<mapsto>
                Num (100 * (1 - v_total_error (vs ! 0) / v_total_error (vs ! 1)))]" by auto
    have c0: "c = v_total_error (vs ! 0)" using c s(5) by simp
    have l0: "0 < length vs" using s(1) by linarith
    have l1: "1 < length vs" using s(1) by linarith
    have m0: "map v_total_error vs ! 0 = v_total_error (vs ! 0)" using l0 by (rule nth_map)
    have m1: "map v_total_error vs ! 1 = v_total_error (vs ! 1)" using l1 by (rule nth_map)
    have a0: "map v_total_error (vs @ ns) ! 0 = v_total_error (vs ! 0)"
      using l0 by (simp add: nth_append)
    have z0: "vs ! 0 \<in> set vs" using l0 by (rule nth_mem)
    have all: "\<forall>r \<in> set vs. v_phase r = p"
      using unique_count_one_all [OF True] z0 s(2) by blast
    then have blk: "filter (\<lambda>r. v_phase r = p) vs = vs" by (simp add: filter_id_conv)
    have blk': "filter (\<lambda>r. v_phase r \<noteq> p) vs = []" using all by (simp add: filter_empty_conv)
    have "p \<in> set (map v_phase vs)" using z0 s(2) by force
    then have sr: "sorted (map v_total_error vs)"
      using srt blk unfolding vector_sorted_def by (metis (mono_tags, lifting))
    have le: "\<forall>j<length vs. v_total_error (vs ! 0) \<le> v_total_error (vs ! j)"
    proof (intro allI impI)
      fix j assume j: "j < length vs"
      then have "map v_total_error vs ! 0 \<le> map v_total_error vs ! j"
        using sorted_nth_mono [OF sr, of 0 j] by simp
      then show "v_total_error (vs ! 0) \<le> v_total_error (vs ! j)" using j m0 by simp
    qed
    have am: "np_argmin (map v_total_error (vs @ ns)) = Inr 0"
    proof (rule np_argmin_first)
      show "0 < length (map v_total_error (vs @ ns))" using l0 by simp
      show "\<forall>j<length (map v_total_error (vs @ ns)).
              map v_total_error (vs @ ns) ! 0 \<le> map v_total_error (vs @ ns) ! j"
      proof (intro allI impI)
        fix j assume j: "j < length (map v_total_error (vs @ ns))"
        then have jl: "j < length (vs @ ns)" by simp
        have jm: "map v_total_error (vs @ ns) ! j = v_total_error ((vs @ ns) ! j)"
          using jl by (rule nth_map)
        show "map v_total_error (vs @ ns) ! 0 \<le> map v_total_error (vs @ ns) ! j"
          unfolding a0 jm
        proof (cases "j < length vs")
          case True
          then have "(vs @ ns) ! j = vs ! j" by (simp add: nth_append)
          then show "v_total_error (vs ! 0) \<le> v_total_error ((vs @ ns) ! j)"
            using le True by simp
        next
          case False
          then have "(vs @ ns) ! j \<in> set ns" using jl by (simp add: nth_append)
          then have "v_total_error (vs ! 0) < v_total_error ((vs @ ns) ! j)"
            using worse c0 by blast
          then show "v_total_error (vs ! 0) \<le> v_total_error ((vs @ ns) ! j)" by simp
        qed
      qed
      show "\<forall>j<0. map v_total_error (vs @ ns) ! 0 < map v_total_error (vs @ ns) ! j" by simp
    qed
    have "2 \<le> length (map v_total_error vs)" using s(1) by simp
    from np_partition_kth_asc [OF sr this]
    have part: "np_partition_kth (map v_total_error (filter (\<lambda>r. v_phase r = p) vs)) 1
        = Inr (v_total_error (vs ! 1))"
      unfolding blk m1 .
    have pos: "\<forall>r \<in> set (filter (\<lambda>r. v_phase r \<noteq> p) vs). 0 < v_total_error r"
      unfolding blk' by simp
    have "0 < length vs \<and> np_argmin (map v_total_error (vs @ ns)) = Inr 0
      \<and> p = v_phase (vs ! 0) \<and> ori = mat2euler (v_rotation (vs ! 0))
      \<and> v_total_error (vs ! 1) \<noteq> 0
      \<and> np_partition_kth (map v_total_error (filter (\<lambda>r. v_phase r = p) vs)) 1
          = Inr (v_total_error (vs ! 1))
      \<and> (\<forall>r \<in> set (filter (\<lambda>r. v_phase r \<noteq> p) vs). 0 < v_total_error r)
      \<and> (\<forall>k. k \<noteq> ''phase_reliability'' \<longrightarrow>
            m k = [''match_rate'' \<mapsto> Num (v_match_rate (vs ! 0)),
                   ''ehkls'' \<mapsto> Arr (v_ehkls (vs ! 0)),
                   ''total_error'' \<mapsto> Num (v_total_error (vs ! 0)),
                   ''orientation_reliability'' \<mapsto>
                      Num (100 * (1 - v_total_error (vs ! 0) / v_total_error (vs ! 1)))] k)"
      using l0 am s(2,3,4) part pos s(5) by blast
    then show ?thesis by blast
  next
    case False
    from vector_multi_inv [OF False ok]
    obtain i so sp where s: "np_argmin (map v_total_error vs) = Inr i"
      "p = v_phase (vs ! i)" "ori = mat2euler (v_rotation (vs ! i))"
      "np_partition_kth (map v_total_error (filter (\<lambda>r. v_phase r = p) vs)) 1 = Inr so"
      "np_min (map v_total_error (filter (\<lambda>r. v_phase r \<noteq> p) vs)) = Inr sp"
      "so \<noteq> 0" "sp \<noteq> 0"
      "m = [''match_rate'' \<mapsto> Num (v_match_rate (vs ! i)),
             ''ehkls'' \<mapsto> Arr (v_ehkls (vs ! i)),
             ''total_error'' \<mapsto> Num (v_total_error (vs ! i)),
             ''orientation_reliability'' \<mapsto> Num (100 * (1 - v_total_error (vs ! i) / so)),
             ''phase_reliability'' \<mapsto> Num (100 * (1 - v_total_error (vs ! i) / sp))]" by blast
    from np_argmin_props [OF s(1)]
    have pr: "i < length (map v_total_error vs)"
      "\<forall>j<length (map v_total_error vs). map v_total_error vs ! i \<le> map v_total_error vs ! j"
      by auto
    have il: "i < length vs" using pr(1) by simp
    have mi: "map v_total_error vs ! i = v_total_error (vs ! i)" using il by (rule nth_map)
    have c0: "c = v_total_error (vs ! i)" using c s(8) by simp
    have ge: "\<forall>r \<in> set vs. c \<le> v_total_error r"
    proof
      fix r assume "r \<in> set vs"
      then obtain j where j: "j < length vs" "vs ! j = r" by (auto simp: in_set_conv_nth)
      have "j < length (map v_total_error vs)" using j(1) by simp
      then have "map v_total_error vs ! i \<le> map v_total_error vs ! j" using pr(2) by blast
      moreover have "map v_total_error vs ! j = v_total_error r"
        using nth_map [OF j(1), of v_total_error] j(2) by simp
      ultimately show "c \<le> v_total_error r" unfolding mi c0 by simp
    qed
    let ?z' = "filter (\<lambda>r. v_phase r \<noteq> p) vs"
    have zne: "?z' \<noteq> []" using s(5) by (auto simp: np_min_def split: if_splits)
    from np_min_attained [OF zne, of v_total_error]
    obtain rv where rv: "rv \<in> set ?z'" "np_min (map v_total_error ?z') = Inr (v_total_error rv)"
      "\<forall>x \<in> set ?z'. v_total_error rv \<le> v_total_error x" by blast
    have sprv: "sp = v_total_error rv" using rv(2) s(5) by simp
    have "rv \<in> set vs" using rv(1) by simp
    then have "0 \<le> sp" using ge nonneg unfolding sprv by force
    then have sppos: "0 < sp" using s(7) by simp
    have pos: "\<forall>r \<in> set ?z'. 0 < v_total_error r"
      using rv(3) sppos unfolding sprv by force
    have "\<forall>y \<in> set (map v_total_error ns). map v_total_error vs ! i < y"
      unfolding mi using worse c0 by auto
    from np_argmin_append [OF s(1) this]
    have am: "np_argmin (map v_total_error (vs @ ns)) = Inr i" by simp
    have "\<forall>k. k \<noteq> ''phase_reliability'' \<longrightarrow>
            m k = [''match_rate'' \<mapsto> Num (v_match_rate (vs ! i)),
                   ''ehkls'' \<mapsto> Arr (v_ehkls (vs ! i)),
                   ''total_error'' \<mapsto> Num (v_total_error (vs ! i)),
                   ''orientation_reliability'' \<mapsto>
                      Num (100 * (1 - v_total_error (vs ! i) / so))] k"
      unfolding s(8) by simp
    then have "i < length vs \<and> np_argmin (map v_total_error (vs @ ns)) = Inr i
      \<and> p = v_phase (vs ! i) \<and> ori = mat2euler (v_rotation (vs ! i)) \<and> so \<noteq> 0
      \<and> np_partition_kth (map v_total_error (filter (\<lambda>r. v_phase r = p) vs)) 1 = Inr so
      \<and> (\<forall>r \<in> set (filter (\<lambda>r. v_phase r \<noteq> p) vs). 0 < v_total_error r)
      \<and> (\<forall>k. k \<noteq> ''phase_reliability'' \<longrightarrow>
            m k = [''match_rate'' \<mapsto> Num (v_match_rate (vs ! i)),
                   ''ehkls'' \<mapsto> Arr (v_ehkls (vs ! i)),
                   ''total_error'' \<mapsto> Num (v_total_error (vs ! i)),
                   ''orientation_reliability'' \<mapsto>
                      Num (100 * (1 - v_total_error (vs ! i) / so))] k)"
      using il am s(2,3,6,4) pos by blast
    then show ?thesis by blast
  qed
  then obtain i so where s: "i < length vs" "np_argmin (map v_total_error (vs @ ns)) = Inr i"
      "p = v_phase (vs ! i)" "ori = mat2euler (v_rotation (vs ! i))" "so \<noteq> 0"
      "np_partition_kth (map v_total_error (filter (\<lambda>r. v_phase r = p) vs)) 1 = Inr so"
      "\<forall>r \<in> set (filter (\<lambda>r. v_phase r \<noteq> p) vs). 0 < v_total_error r"
      "\<forall>k. k \<noteq> ''phase_reliability'' \<longrightarrow>
            m k = [''match_rate'' \<mapsto> Num (v_match_rate (vs ! i)),
                   ''ehkls'' \<mapsto> Arr (v_ehkls (vs ! i)),
                   ''total_error'' \<mapsto> Num (v_total_error (vs ! i)),
                   ''orientation_reliability'' \<mapsto>
                      Num (100 * (1 - v_total_error (vs ! i) / so))] k"
    by blast
  have at: "(vs @ ns) ! i = vs ! i" using s(1) by (simp add: nth_append)
  have zi: "vs ! i \<in> set (vs @ ns)" using s(1) by simp
  have nn: "n \<in> set (vs @ ns)" using n by simp
  have u: "np_unique_count (map v_phase (vs @ ns)) \<noteq> 1"
    using unique_count_multi [OF nn zi, of v_phase] ph n s(3) by blast
  have blk: "filter (\<lambda>r. v_phase r = v_phase ((vs @ ns) ! i)) (vs @ ns)
      = filter (\<lambda>r. v_phase r = p) vs"
    unfolding at using ph s(3) by (simp add: filter_empty_conv)
  let ?new = "filter (\<lambda>r. v_phase r \<noteq> v_phase ((vs @ ns) ! i)) (vs @ ns)"
  have newne: "?new \<noteq> []"
    unfolding at using ph n s(3) by (auto simp: filter_empty_conv)
  have newpos: "\<forall>r \<in> set ?new. 0 < v_total_error r"
  proof
    fix r assume "r \<in> set ?new"
    then have "r \<in> set (filter (\<lambda>r. v_phase r \<noteq> p) vs) \<or> r \<in> set ns"
      unfolding at using s(3) by auto
    then show "0 < v_total_error r"
    proof
      assume "r \<in> set (filter (\<lambda>r. v_phase r \<noteq> p) vs)"
      then show ?thesis using s(7) by blast
    next
      assume "r \<in> set ns"
      then have "c < v_total_error r" using worse by blast
      then show ?thesis using nonneg by simp
    qed
  qed
  from np_min_attained [OF newne, of v_total_error]
  obtain rv where rv: "rv \<in> set ?new" "np_min (map v_total_error ?new) = Inr (v_total_error rv)"
    by blast
  have spnz: "v_total_error rv \<noteq> 0" using newpos rv(1) by force
  have part: "np_partition_kth (map v_total_error
      (filter (\<lambda>r. v_phase r = v_phase ((vs @ ns) ! i)) (vs @ ns))) 1 = Inr so"
    unfolding blk by (rule s(6))
  from vector_multi_run [OF u s(2) part rv(2) s(5) spnz, of mat2euler]
  have "crystal_from_vector_matching mat2euler (vs @ ns) = Inr (p, ori,
            [''match_rate'' \<mapsto> Num (v_match_rate (vs ! i)),
             ''ehkls'' \<mapsto> Arr (v_ehkls (vs ! i)),
             ''total_error'' \<mapsto> Num (v_total_error (vs ! i)),
             ''orientation_reliability'' \<mapsto> Num (100 * (1 - v_total_error (vs ! i) / so)),
             ''phase_reliability'' \<mapsto>
                Num (100 * (1 - v_total_error (vs ! i) / v_total_error rv))])"
    unfolding at using s(3,4) by simp
  moreover have "\<forall>k. k \<noteq> ''phase_reliability'' \<longrightarrow>
       [''match_rate'' \<mapsto> Num (v_match_rate (vs ! i)),
        ''ehkls'' \<mapsto> Arr (v_ehkls (vs ! i)),
        ''total_error'' \<mapsto> Num (v_total_error (vs ! i)),
        ''orientation_reliability'' \<mapsto> Num (100 * (1 - v_total_error (vs ! i) / so)),
        ''phase_reliability'' \<mapsto>
           Num (100 * (1 - v_total_error (vs ! i) / v_total_error rv))] k = m k"
    using s(8) by simp
  ultimately show ?thesis by blast
qed

text \<open>
  Claim C8, amended. The single-phase branch returns row 0 and the multi-phase branch the
  row of globally best score, so the invariance needs the input order that the reducers
  document: within each phase the rows are sorted best-first (correlation descending for
  \<open>crystal_from_template_matching\<close>, total error ascending for
  \<open>crystal_from_vector_matching\<close>), and total errors are non-negative. Let a reducer
  return a result on such an input, and let further rows be appended whose phase differs
  from the returned phase and whose score is strictly worse than the returned one (lower
  correlation, higher total error). Then the reducer returns the same phase and the same
  orientation on the extended input, and the metrics agree on every key other than
  \<open>phase_reliability\<close>.
\<close>

theorem extra_phase_invariance:
  fixes zs ns :: "'o template_row list" and vs ws :: "('m, 'e) vector_row list"
  assumes "crystal_from_template_matching zs = Inr (p, ori, m)"
    and "m ''correlation'' = Some c"
    and "template_sorted zs"
    and "\<forall>r \<in> set ns. t_phase r \<noteq> p"
    and "\<forall>r \<in> set ns. t_correlation r < c"
    and "crystal_from_vector_matching mat2euler vs = Inr (q, ori', mv)"
    and "mv ''total_error'' = Some (Num e)"
    and "vector_sorted vs"
    and "\<forall>r \<in> set ws. v_phase r \<noteq> q"
    and "\<forall>r \<in> set ws. e < v_total_error r"
    and "0 \<le> e"
  shows "(\<exists>m'. crystal_from_template_matching (zs @ ns) = Inr (p, ori, m')
            \<and> (\<forall>k. k \<noteq> ''phase_reliability'' \<longrightarrow> m' k = m k))
       \<and> (\<exists>mv'. crystal_from_vector_matching mat2euler (vs @ ws) = Inr (q, ori', mv')
            \<and> (\<forall>k. k \<noteq> ''phase_reliability'' \<longrightarrow> mv' k = mv k))"
proof -
  have t: "\<exists>m'. crystal_from_template_matching (zs @ ns) = Inr (p, ori, m')
            \<and> (\<forall>k. k \<noteq> ''phase_reliability'' \<longrightarrow> m' k = m k)"
  proof (cases "ns = []")
    case True
    then show ?thesis using assms(1) by simp
  next
    case False
    then show ?thesis by (rule template_extend [OF assms(1-5)])
  qed
  have v: "\<exists>mv'. crystal_from_vector_matching mat2euler (vs @ ws) = Inr (q, ori', mv')
            \<and> (\<forall>k. k \<noteq> ''phase_reliability'' \<longrightarrow> mv' k = mv k)"
  proof (cases "ws = []")
    case True
    then show ?thesis using assms(6) by simp
  next
    case False
    then show ?thesis by (rule vector_extend [OF assms(6-11)])
  qed
  from t v show ?thesis by blast
qed

theorem extra_phase_invariance_witness:
  "crystal_from_template_matching [TemplateRow 0 (1::nat) 0.9, TemplateRow 0 2 0.5] =
     Inr (0, 1, [''correlation'' \<mapsto> 0.9, ''orientation_reliability'' \<mapsto> 400 / 9])
   \<and> crystal_from_vector_matching (\<lambda>R. R)
       [VectorRow 0 (1::nat) 1 (7::nat) 0.01, VectorRow 0 2 1 8 0.02] =
     Inr (0, 1, [''match_rate'' \<mapsto> Num 1, ''ehkls'' \<mapsto> Arr 7, ''total_error'' \<mapsto> Num 0.01,
       ''orientation_reliability'' \<mapsto> Num 50])
   \<and> (\<exists>m'. crystal_from_template_matching ([TemplateRow 0 (1::nat) 0.9, TemplateRow 0 2 0.5]
          @ [TemplateRow 1 3 0.7, TemplateRow 1 4 0.2]) = Inr (0, 1, m')
        \<and> m' ''correlation'' = Some 0.9 \<and> m' ''orientation_reliability'' = Some (400 / 9))
   \<and> (\<exists>mv'. crystal_from_vector_matching (\<lambda>R. R)
          ([VectorRow 0 (1::nat) 1 (7::nat) 0.01, VectorRow 0 2 1 8 0.02]
           @ [VectorRow 1 3 1 9 0.05]) = Inr (0, 1, mv')
        \<and> mv' ''total_error'' = Some (Num 0.01)
        \<and> mv' ''orientation_reliability'' = Some (Num 50))"
proof -
  let ?zs = "[TemplateRow 0 (1::nat) 0.9, TemplateRow 0 2 0.5]"
  let ?ns = "[TemplateRow 1 (3::nat) 0.7, TemplateRow 1 4 0.2]"
  let ?vs = "[VectorRow 0 (1::nat) 1 (7::nat) 0.01, VectorRow 0 2 1 8 0.02]"
  let ?ws = "[VectorRow 1 (3::nat) 1 (9::nat) 0.05]"
  let ?m = "[''correlation'' \<mapsto> 0.9, ''orientation_reliability'' \<mapsto> 400 / (9::real)]"
  let ?mv = "[''match_rate'' \<mapsto> Num 1, ''ehkls'' \<mapsto> Arr (7::nat), ''total_error'' \<mapsto> Num 0.01,
       ''orientation_reliability'' \<mapsto> Num 50]"
  have h1: "crystal_from_template_matching ?zs = Inr (0, 1, ?m)"
    by (simp add: crystal_from_template_matching_def np_unique_count_def bind_err_def py_div_def)
  have h2: "?m ''correlation'' = Some 0.9" by simp
  have h3: "template_sorted ?zs" by (simp add: template_sorted_def)
  have h4: "\<forall>r \<in> set ?ns. t_phase r \<noteq> 0" by simp
  have h5: "\<forall>r \<in> set ?ns. t_correlation r < 0.9" by simp
  have g1: "crystal_from_vector_matching (\<lambda>R. R) ?vs = Inr (0, 1, ?mv)"
    by (simp add: crystal_from_vector_matching_def np_unique_count_def bind_err_def py_div_def)
  have g2: "?mv ''total_error'' = Some (Num 0.01)" by simp
  have g3: "vector_sorted ?vs" by (simp add: vector_sorted_def)
  have g4: "\<forall>r \<in> set ?ws. v_phase r \<noteq> 0" by simp
  have g5: "\<forall>r \<in> set ?ws. 0.01 < v_total_error r" by simp
  have g6: "(0::real) \<le> 0.01" by simp
  from extra_phase_invariance [OF h1 h2 h3 h4 h5 g1 g2 g3 g4 g5 g6]
  obtain m' mv' where a: "crystal_from_template_matching (?zs @ ?ns) = Inr (0, 1, m')"
      "\<forall>k. k \<noteq> ''phase_reliability'' \<longrightarrow> m' k = ?m k"
    and b: "crystal_from_vector_matching (\<lambda>R. R) (?vs @ ?ws) = Inr (0, 1, mv')"
      "\<forall>k. k \<noteq> ''phase_reliability'' \<longrightarrow> mv' k = ?mv k"
    by blast
  have a1: "m' ''correlation'' = Some 0.9" using a(2) by simp
  have a2: "m' ''orientation_reliability'' = Some (400 / 9)" using a(2) by simp
  have b1: "mv' ''total_error'' = Some (Num 0.01)" using b(2) by simp
  have b2: "mv' ''orientation_reliability'' = Some (Num 50)" using b(2) by simp
  from h1 g1 a(1) a1 a2 b(1) b1 b2 show ?thesis by blast
qed

text \<open>
  Without the input order the invariance fails. In one phase with correlations 0.5 and 1
  (in this order) the template reducer returns row 0; after a phase with correlations 0.25
  and 0.125 is appended it returns row 1. In one phase ordered by match rate, with total
  errors 0.5 and 0.25, the vector reducer returns row 0; after a phase with total error
  0.75 is appended it returns row 1.
\<close>

theorem extra_phase_unsorted_counterexample:
  "crystal_from_template_matching [TemplateRow 0 (1::nat) 0.5, TemplateRow 0 2 1] =
     Inr (0, 1, [''correlation'' \<mapsto> 0.5, ''orientation_reliability'' \<mapsto> - 100])
   \<and> crystal_from_template_matching ([TemplateRow 0 (1::nat) 0.5, TemplateRow 0 2 1]
        @ [TemplateRow 1 3 0.25, TemplateRow 1 4 0.125]) =
     Inr (0, 2, [''correlation'' \<mapsto> 1, ''orientation_reliability'' \<mapsto> 50,
                 ''phase_reliability'' \<mapsto> 75])
   \<and> crystal_from_vector_matching (\<lambda>R. R)
        [VectorRow 0 (1::nat) 1 (7::nat) 0.5, VectorRow 0 2 0.75 8 0.25] =
     Inr (0, 1, [''match_rate'' \<mapsto> Num 1, ''ehkls'' \<mapsto> Arr 7, ''total_error'' \<mapsto> Num 0.5,
                 ''orientation_reliability'' \<mapsto> Num (- 100)])
   \<and> crystal_from_vector_matching (\<lambda>R. R)
        ([VectorRow 0 (1::nat) 1 (7::nat) 0.5, VectorRow 0 2 0.75 8 0.25]
         @ [VectorRow 1 3 0.5 9 0.75]) =
     Inr (0, 2, [''match_rate'' \<mapsto> Num 0.75, ''ehkls'' \<mapsto> Arr 8, ''total_error'' \<mapsto> Num 0.25,
                 ''orientation_reliability'' \<mapsto> Num 50,
                 ''phase_reliability'' \<mapsto> Num (200 / 3)])"
  by (simp add: crystal_from_template_matching_def crystal_from_vector_matching_def
      np_unique_count_def np_argmax_def np_argmin_def np_partition_kth_def np_max_def np_min_def
      bind_err_def py_div_def Let_def)

section \<open>Properties of the solution ranker\<close>

lemma argsort_stable_ok: "argsort_ok np_argsort_stable"
  by (simp add: argsort_ok_def np_argsort_stable_def)

lemma argsort_length:
  assumes "argsort_ok argsort"
  shows "length (argsort ks) = length ks"
proof -
  have "mset (argsort ks) = mset [0..<length ks]" using assms by (simp add: argsort_ok_def)
  then have "length (argsort ks) = length [0..<length ks]" by (rule mset_eq_length)
  then show ?thesis by simp
qed

lemma argsort_gather:
  assumes "argsort_ok argsort"
  shows "mset (map (\<lambda>i. xs ! i) (argsort (map f xs))) = mset xs"
    and "sorted (map f (map (\<lambda>i. xs ! i) (argsort (map f xs))))"
proof -
  let ?idx = "argsort (map f xs)"
  have m: "mset ?idx = mset [0..<length xs]" and s: "sorted (map (\<lambda>i. map f xs ! i) ?idx)"
    using assms unfolding argsort_ok_def by (metis length_map)+
  have "mset (map (\<lambda>i. xs ! i) ?idx) = image_mset (\<lambda>i. xs ! i) (mset ?idx)" by simp
  also have "\<dots> = mset (map (\<lambda>i. xs ! i) [0..<length xs])" unfolding m by simp
  also have "\<dots> = mset xs" by (simp only: map_nth)
  finally show "mset (map (\<lambda>i. xs ! i) ?idx) = mset xs" .
  have "set ?idx = set [0..<length xs]" using m by (rule mset_eq_setD)
  then have "\<forall>i \<in> set ?idx. i < length xs" by simp
  then have eq: "map (\<lambda>i. map f xs ! i) ?idx = map f (map (\<lambda>i. xs ! i) ?idx)" by simp
  show "sorted (map f (map (\<lambda>i. xs ! i) ?idx))" using s unfolding eq .
qed

lemma top_of_sorted:
  assumes "sorted (map f F)"
  shows "sorted (rev (map f (take n (rev F))))"
    and "\<forall>a \<in> set (drop n (rev F)). \<forall>b \<in> set (take n (rev F)). f a \<le> f b"
proof -
  let ?A = "take n (rev F)" and ?B = "drop n (rev F)"
  have "rev F = ?A @ ?B" by simp
  then have "F = rev ?B @ rev ?A" by (metis rev_append rev_rev_ident)
  then have "sorted (map f (rev ?B) @ map f (rev ?A))" using assms by (metis map_append)
  then have "sorted (map f (rev ?A))"
    and "\<forall>x \<in> set (map f (rev ?B)). \<forall>y \<in> set (map f (rev ?A)). x \<le> y"
    unfolding sorted_append by blast+
  then show "sorted (rev (map f ?A))"
    and "\<forall>a \<in> set ?B. \<forall>b \<in> set ?A. f a \<le> f b"
    by (simp_all add: rev_map)
qed

lemma sort_solutions_eq:
  assumes "argsort_ok argsort" and "0 \<le> n"
  shows "sort_solutions argsort sols n =
     take (nat n) (rev (map (\<lambda>i. sols ! i) (argsort (map s_match_rate sols))))"
proof -
  define idx where "idx = rev (argsort (map s_match_rate sols))"
  have len: "length idx = length sols"
    unfolding idx_def using argsort_length [OF assms(1), of "map s_match_rate sols"] by simp
  have k: "nat (min n (int (length sols))) = min (nat n) (length sols)"
    using assms(2) by (auto simp: min_def)
  have "0 \<le> min n (int (length sols))" using assms(2) by simp
  then have "py_take (min n (int (length sols))) idx = take (min (nat n) (length sols)) idx"
    unfolding py_take_def k [symmetric] by simp
  also have "\<dots> = take (nat n) idx"
  proof (cases "nat n \<le> length sols")
    case True
    then show ?thesis by (simp add: min_def)
  next
    case False
    then show ?thesis using len by (simp add: min_def)
  qed
  finally have "sort_solutions argsort sols n = map (\<lambda>i. sols ! i) (take (nat n) idx)"
    by (simp add: sort_solutions_def Let_def idx_def)
  then show ?thesis unfolding idx_def by (simp only: take_map rev_map)
qed

lemma stable_gather_filter:
  "filter (\<lambda>s. f s = r) (map (\<lambda>i. xs ! i) (np_argsort_stable (map f xs)))
     = filter (\<lambda>s. f s = r) xs"
proof -
  define key where "key = (\<lambda>i. map f xs ! i)"
  define idx where "idx = sort_key key [0..<length xs]"
  have in_range: "\<And>i. i \<in> set idx \<Longrightarrow> i < length xs" unfolding idx_def by simp
  have keyf: "\<And>i. i < length xs \<Longrightarrow> key i = f (xs ! i)" unfolding key_def by simp
  have "filter (\<lambda>s. f s = r) (map (\<lambda>i. xs ! i) idx)
      = map (\<lambda>i. xs ! i) (filter ((\<lambda>s. f s = r) \<circ> (\<lambda>i. xs ! i)) idx)"
    by (rule filter_map)
  also have "filter ((\<lambda>s. f s = r) \<circ> (\<lambda>i. xs ! i)) idx = filter (\<lambda>i. key i = r) idx"
  proof (rule filter_cong)
    show "idx = idx" by (rule refl)
    fix i assume "i \<in> set idx"
    then have "key i = f (xs ! i)" using in_range keyf by blast
    then show "((\<lambda>s. f s = r) \<circ> (\<lambda>i. xs ! i)) i = (key i = r)" by simp
  qed
  also have "\<dots> = filter (\<lambda>i. key i = r) [0..<length xs]"
    unfolding idx_def by (rule sort_key_stable)
  also have "\<dots> = filter ((\<lambda>s. f s = r) \<circ> (\<lambda>i. xs ! i)) [0..<length xs]"
  proof (rule filter_cong)
    show "[0..<length xs] = [0..<length xs]" by (rule refl)
    fix i assume "i \<in> set [0..<length xs]"
    then have "key i = f (xs ! i)" using keyf by simp
    then show "(key i = r) = ((\<lambda>s. f s = r) \<circ> (\<lambda>i. xs ! i)) i" by simp
  qed
  also have "map (\<lambda>i. xs ! i) \<dots> = filter (\<lambda>s. f s = r) (map (\<lambda>i. xs ! i) [0..<length xs])"
    by (rule filter_map [symmetric])
  also have "\<dots> = filter (\<lambda>s. f s = r) xs" by (simp only: map_nth)
  finally show ?thesis unfolding idx_def key_def np_argsort_stable_def by simp
qed

text \<open>
  Claim C5, amended. For every argsort that meets numpy's contract and every count
  \<open>n \<ge> 0\<close>, \<open>sort_solutions\<close> returns \<open>min n (length sols)\<close> solutions in non-increasing
  order of match rate, and they are solutions of highest match rate: every solution left
  out has a match rate at most that of every solution returned. The match rate is the only
  key. Solutions of equal match rate are not kept in their input order: the result is the
  reversed ascending argsort, so with the stable argsort they come out in the reverse of
  their input order.
\<close>

theorem sort_solutions_ranked:
  assumes "argsort_ok argsort" and "0 \<le> n"
  shows "length (sort_solutions argsort sols n) = min (nat n) (length sols)
    \<and> sorted (rev (map s_match_rate (sort_solutions argsort sols n)))
    \<and> (\<exists>rest. mset sols = mset (sort_solutions argsort sols n) + mset rest
          \<and> (\<forall>a \<in> set rest. \<forall>b \<in> set (sort_solutions argsort sols n).
                s_match_rate a \<le> s_match_rate b))
    \<and> (\<forall>r. prefix (filter (\<lambda>s. s_match_rate s = r) (sort_solutions np_argsort_stable sols n))
              (rev (filter (\<lambda>s. s_match_rate s = r) sols)))"
proof -
  define F where "F = map (\<lambda>i. sols ! i) (argsort (map s_match_rate sols))"
  define out where "out = sort_solutions argsort sols n"
  have out: "out = take (nat n) (rev F)"
    unfolding out_def F_def by (rule sort_solutions_eq [OF assms])
  have ms: "mset F = mset sols"
    unfolding F_def by (rule argsort_gather(1) [OF assms(1)])
  have so: "sorted (map s_match_rate F)"
    unfolding F_def by (rule argsort_gather(2) [OF assms(1)])
  have lenF: "length F = length sols" using ms by (rule mset_eq_length)
  have a: "length out = min (nat n) (length sols)" unfolding out using lenF by simp
  have b: "sorted (rev (map s_match_rate out))"
    unfolding out by (rule top_of_sorted(1) [OF so])
  have "mset (take (nat n) (rev F) @ drop (nat n) (rev F))
      = mset (take (nat n) (rev F)) + mset (drop (nat n) (rev F))" by (rule mset_append)
  then have "mset (rev F) = mset out + mset (drop (nat n) (rev F))"
    unfolding out by (simp only: append_take_drop_id)
  then have c1: "mset sols = mset out + mset (drop (nat n) (rev F))"
    using ms by (simp only: mset_rev)
  have c2: "\<forall>a \<in> set (drop (nat n) (rev F)). \<forall>b \<in> set out.
      s_match_rate a \<le> s_match_rate b"
    unfolding out by (rule top_of_sorted(2) [OF so])
  from c1 c2 have c: "\<exists>rest. mset sols = mset out + mset rest
          \<and> (\<forall>a \<in> set rest. \<forall>b \<in> set out. s_match_rate a \<le> s_match_rate b)" by blast
  have d: "\<forall>r. prefix (filter (\<lambda>s. s_match_rate s = r) (sort_solutions np_argsort_stable sols n))
              (rev (filter (\<lambda>s. s_match_rate s = r) sols))"
  proof
    fix r
    define G where "G = map (\<lambda>i. sols ! i) (np_argsort_stable (map s_match_rate sols))"
    define P where "P = (\<lambda>s :: ('a, 'b) solution. s_match_rate s = r)"
    have st: "sort_solutions np_argsort_stable sols n = take (nat n) (rev G)"
      unfolding G_def by (rule sort_solutions_eq [OF argsort_stable_ok assms(2)])
    have "filter P (take (nat n) (rev G) @ drop (nat n) (rev G))
        = filter P (take (nat n) (rev G)) @ filter P (drop (nat n) (rev G))"
      by (rule filter_append)
    then have "filter P (rev G)
        = filter P (take (nat n) (rev G)) @ filter P (drop (nat n) (rev G))"
      by (simp only: append_take_drop_id)
    then have p: "prefix (filter P (take (nat n) (rev G))) (filter P (rev G))"
      by (rule prefixI)
    have "filter P G = filter P sols"
      unfolding P_def G_def by (rule stable_gather_filter)
    then have "filter P (rev G) = rev (filter P sols)"
      by (simp only: rev_filter [symmetric])
    then show "prefix (filter (\<lambda>s. s_match_rate s = r) (sort_solutions np_argsort_stable sols n))
        (rev (filter (\<lambda>s. s_match_rate s = r) sols))"
      using p unfolding st P_def by simp
  qed
  from a b c d show ?thesis unfolding out_def by blast
qed

theorem sort_solutions_ranked_witness:
  "argsort_ok np_argsort_stable
   \<and> length (sort_solutions np_argsort_stable
        [Solution (1::nat) (1/2) (7::nat) (1/10) 0, Solution 2 1 8 (2/10) 1,
         Solution 3 (1/2) 9 (3/10) 2] 2) = 2
   \<and> sorted (rev (map s_match_rate (sort_solutions np_argsort_stable
        [Solution (1::nat) (1/2) (7::nat) (1/10) 0, Solution 2 1 8 (2/10) 1,
         Solution 3 (1/2) 9 (3/10) 2] 2)))
   \<and> sort_solutions np_argsort_stable
        [Solution (1::nat) (1/2) (7::nat) (1/10) 0, Solution 2 1 8 (2/10) 1,
         Solution 3 (1/2) 9 (3/10) 2] 2
       = [Solution 2 1 8 (2/10) 1, Solution 3 (1/2) 9 (3/10) 2]"
proof -
  let ?S = "[Solution (1::nat) (1/2) (7::nat) (1/10) 0, Solution 2 1 8 (2/10) 1,
         Solution 3 (1/2) 9 (3/10) 2]"
  have h: "(0::int) \<le> 2" by simp
  from sort_solutions_ranked [OF argsort_stable_ok h, of ?S]
  have a: "length (sort_solutions np_argsort_stable ?S 2) = min (nat 2) (length ?S)"
    and b: "sorted (rev (map s_match_rate (sort_solutions np_argsort_stable ?S 2)))"
    by blast+
  have c: "sort_solutions np_argsort_stable ?S 2
      = [Solution 2 1 8 (2/10) 1, Solution 3 (1/2) 9 (3/10) 2]"
    by (simp add: sort_solutions_def np_argsort_stable_def py_take_def upt_rec)
  have a': "length (sort_solutions np_argsort_stable ?S 2) = 2" using a by simp
  from argsort_stable_ok a' b c show ?thesis by blast
qed

text \<open>
  Two solutions of equal match rate, ranked with the stable argsort: they come out in the
  reverse of their input order.
\<close>

theorem sort_solutions_ties_counterexample:
  "sort_solutions np_argsort_stable
     [Solution (1::nat) (1/2) (7::nat) (1/10) 0, Solution 2 (1/2) 8 (2/10) 1] 2
     = [Solution 2 (1/2) 8 (2/10) 1, Solution 1 (1/2) 7 (1/10) 0]
   \<and> filter (\<lambda>s. s_match_rate s = 1/2) (sort_solutions np_argsort_stable
        [Solution (1::nat) (1/2) (7::nat) (1/10) 0, Solution 2 (1/2) 8 (2/10) 1] 2)
     \<noteq> filter (\<lambda>s. s_match_rate s = 1/2)
        [Solution (1::nat) (1/2) (7::nat) (1/10) 0, Solution 2 (1/2) 8 (2/10) 1]"
  by (simp add: sort_solutions_def np_argsort_stable_def py_take_def upt_rec)

section \<open>Properties of vector matching\<close>

text \<open>
  Claim C10. A \<^verbatim>\<open>peaks\<close> argument that is an object array of shape \<open>(1,)\<close> is
  replaced by its first element before anything else is done: the call on the wrapped
  \<open>(N, 3)\<close> array returns what the call on the array itself returns, and in general the
  call on \<open>Objects [x]\<close> runs the loop over the phases on \<open>x\<close>.
\<close>

theorem match_vectors_unwraps:
  "match_vectors ext (Objects [Floats vs]) library mag_tol angle_tol index_error_tol
       n_peaks_to_index n_best
     = match_vectors ext (Floats vs) library mag_tol angle_tol index_error_tol
         n_peaks_to_index n_best
   \<and> match_vectors ext (Objects [x]) library mag_tol angle_tol index_error_tol
       n_peaks_to_index n_best
     = (if n_best < 0 then Inl ValueError
        else match_phases
               (match_phase ext x mag_tol angle_tol index_error_tol n_peaks_to_index (nat n_best))
               (zip [0..<length library] library))"
  by (simp add: match_vectors_def)







lemma nth_concat_uniform:
  assumes "\<forall>b \<in> set bs. length b = n" and "i < length bs" and "j < n"
  shows "concat bs ! (i * n + j) = bs ! i ! j"
  using assms
proof (induction bs arbitrary: i)
  case Nil
  then show ?case by simp
next
  case (Cons b bs)
  have lb: "length b = n" using Cons.prems(1) by simp
  show ?case
  proof (cases i)
    case 0
    then show ?thesis using lb Cons.prems(3) by (simp add: nth_append)
  next
    case (Suc i')
    have "concat (b # bs) ! (i * n + j) = concat bs ! (i' * n + j)"
      using Suc lb by (simp add: nth_append)
    also have "\<dots> = bs ! i' ! j"
      using Cons.IH [of i'] Cons.prems Suc by simp
    finally show ?thesis using Suc by simp
  qed
qed

lemma length_concat_uniform:
  assumes "\<forall>b \<in> set bs. length b = n"
  shows "length (concat bs) = length bs * n"
  using assms by (induction bs) simp_all



lemma ceiling_half: "\<lceil>real_of_int n / 2\<rceil> = (n + 1) div 2"
proof -
  have "real_of_int n / 2 = of_int n / of_int 2" by simp
  then have "\<lceil>real_of_int n / 2\<rceil> = - (- n div 2)"
    by (simp only: ceiling_divide_eq_div)
  then show ?thesis by linarith
qed






section \<open>Properties of the peak selector\<close>

lemma sorted_uminus_rev:
  fixes xs :: "real list"
  assumes "sorted (map uminus xs)"
  shows "sorted (rev xs)"
proof -
  have "sorted_wrt (\<lambda>x y. y \<le> x) xs"
    using assms by (simp add: sorted_wrt_map)
  then show ?thesis by (simp add: sorted_wrt_rev)
qed

lemma sorted_perm_partition:
  assumes m: "mset idx = mset [0..<length ks]"
    and s: "sorted (map (\<lambda>i. ks ! i) idx)"
    and k: "kth < length ks"
  shows "\<forall>i<length ks.
           (i < kth \<longrightarrow> ks ! (idx ! i) \<le> ks ! (idx ! kth))
         \<and> (kth < i \<longrightarrow> ks ! (idx ! kth) \<le> ks ! (idx ! i))"
proof (intro allI impI conjI)
  have len: "length idx = length ks" using mset_eq_length [OF m] by simp
  fix i assume i: "i < length ks"
  show "ks ! (idx ! i) \<le> ks ! (idx ! kth)" if "i < kth"
  proof -
    have "map (\<lambda>i. ks ! i) idx ! i \<le> map (\<lambda>i. ks ! i) idx ! kth"
      using sorted_nth_mono [OF s, of i kth] that k len by simp
    then show ?thesis using i k len by simp
  qed
  show "ks ! (idx ! kth) \<le> ks ! (idx ! i)" if "kth < i"
  proof -
    have "map (\<lambda>i. ks ! i) idx ! kth \<le> map (\<lambda>i. ks ! i) idx ! i"
      using sorted_nth_mono [OF s, of kth i] that i len by simp
    then show ?thesis using i k len by simp
  qed
qed

lemma argpartition_sorted_ok: "argpartition_ok argpartition_sorted"
  unfolding argpartition_ok_def argpartition_sorted_def
proof (intro allI impI)
  fix ks :: "real list" and kth assume k: "kth < length ks"
  have m: "mset (np_argsort_stable ks) = mset [0..<length ks]"
    by (simp add: np_argsort_stable_def)
  have s: "sorted (map (\<lambda>i. ks ! i) (np_argsort_stable ks))"
    by (simp add: np_argsort_stable_def)
  show "mset (np_argsort_stable ks) = mset [0..<length ks]
      \<and> (\<forall>i<length ks.
           (i < kth \<longrightarrow> ks ! (np_argsort_stable ks ! i) \<le> ks ! (np_argsort_stable ks ! kth))
         \<and> (kth < i \<longrightarrow> ks ! (np_argsort_stable ks ! kth) \<le> ks ! (np_argsort_stable ks ! i)))"
    using m sorted_perm_partition [OF m s k] by blast
qed

lemma rev_neg_sorted:
  "mset (rev (np_argsort_stable (map uminus ks))) = mset [0..<length ks]"
  "sorted (map (\<lambda>i. ks ! i) (rev (np_argsort_stable (map uminus ks))))"
proof -
  define idx where "idx = np_argsort_stable (map uminus ks)"
  have m: "mset idx = mset [0..<length ks]" unfolding idx_def by (simp add: np_argsort_stable_def)
  show "mset (rev (np_argsort_stable (map uminus ks))) = mset [0..<length ks]"
    using m unfolding idx_def by simp
  have s: "sorted (map (\<lambda>i. map uminus ks ! i) idx)"
    unfolding idx_def by (simp add: np_argsort_stable_def)
  have "set idx = set [0..<length ks]" using m by (rule mset_eq_setD)
  then have r: "\<forall>i \<in> set idx. i < length ks" by simp
  then have eq: "map (\<lambda>i. map uminus ks ! i) idx = map uminus (map (\<lambda>i. ks ! i) idx)" by simp
  have su: "sorted (map uminus (map (\<lambda>i. ks ! i) idx))" using s unfolding eq .
  have "sorted (rev (map (\<lambda>i. ks ! i) idx))"
    using su by (rule sorted_uminus_rev)
  then show "sorted (map (\<lambda>i. ks ! i) (rev (np_argsort_stable (map uminus ks))))"
    unfolding idx_def by (simp add: rev_map)
qed

lemma argpartition_ties_ok: "argpartition_ok argpartition_ties"
  unfolding argpartition_ok_def
proof (intro allI impI)
  fix ks :: "real list" and kth assume k: "kth < length ks"
  define idx where "idx = argpartition_ties ks kth"
  have ms: "mset idx = mset [0..<length ks] \<and> sorted (map (\<lambda>i. ks ! i) idx)"
  proof (cases "even kth")
    case True
    then show ?thesis
      unfolding idx_def argpartition_ties_def by (simp add: np_argsort_stable_def)
  next
    case False
    then show ?thesis
      unfolding idx_def argpartition_ties_def using rev_neg_sorted [of ks] by simp
  qed
  then have m: "mset idx = mset [0..<length ks]" and s: "sorted (map (\<lambda>i. ks ! i) idx)"
    by blast+
  show "mset (argpartition_ties ks kth) = mset [0..<length ks]
      \<and> (\<forall>i<length ks.
           (i < kth \<longrightarrow> ks ! (argpartition_ties ks kth ! i) \<le> ks ! (argpartition_ties ks kth ! kth))
         \<and> (kth < i \<longrightarrow> ks ! (argpartition_ties ks kth ! kth) \<le> ks ! (argpartition_ties ks kth ! i)))"
    using m sorted_perm_partition [OF m s k] unfolding idx_def by blast
qed

lemma ceiling_half_nat:
  assumes "0 \<le> n"
  shows "nat \<lceil>real_of_int n / 2\<rceil> = (nat n + 1) div 2"
  using assms unfolding ceiling_half by linarith

lemma perm_range:
  assumes "mset P = mset [0..<N]"
  shows "length P = N" and "distinct P" and "set P = {0..<N}"
proof -
  show "length P = N" using mset_eq_length [OF assms] by simp
  show "set P = {0..<N}" using mset_eq_setD [OF assms] by simp
  show "distinct P" using assms by (metis distinct_upt mset_eq_imp_distinct_iff)
qed

lemma choose_peak_ids_run:
  assumes "peaks \<noteq> []" and "1 \<le> k"
  shows "choose_peak_ids ap peaks k =
     Inr (drop (length peaks - (min (length peaks) (nat k) + 1) div 2)
            (ap (map np_linalg_norm peaks)
               (length peaks - (min (length peaks) (nat k) + 1) div 2))
          @ take (min (length peaks) (nat k) - (min (length peaks) (nat k) + 1) div 2)
              (ap (map np_linalg_norm peaks)
                 (min (length peaks) (nat k) - (min (length peaks) (nat k) + 1) div 2)))"
proof -
  define n where "n = min (int (length peaks)) k"
  have n1: "1 \<le> n" using assms unfolding n_def by (cases peaks) auto
  have nn: "nat n = min (length peaks) (nat k)" using assms(2) unfolding n_def by linarith
  have nl: "nat \<lceil>real_of_int n / 2\<rceil> = (nat n + 1) div 2"
    using n1 by (intro ceiling_half_nat) simp
  have ns: "nat (n - \<lceil>real_of_int n / 2\<rceil>) = nat n - (nat n + 1) div 2"
    using n1 unfolding ceiling_half by linarith
  show ?thesis
    unfolding choose_peak_ids_def Let_def n_def [symmetric]
    using n1 by (simp add: nl ns nn)
qed

lemma partition_upper_part:
  fixes L :: "real list"
  assumes m: "mset P = mset [0..<N]" and k: "kth < N"
    and c: "\<forall>i<N. (i < kth \<longrightarrow> L ! (P ! i) \<le> L ! (P ! kth))
                  \<and> (kth < i \<longrightarrow> L ! (P ! kth) \<le> L ! (P ! i))"
  shows "\<forall>i<N. i \<notin> set (drop kth P) \<longrightarrow> (\<forall>j \<in> set (drop kth P). L ! i \<le> L ! j)"
proof (intro allI impI ballI)
  fix i j assume i: "i < N" "i \<notin> set (drop kth P)" and j: "j \<in> set (drop kth P)"
  have len: "length P = N" and sp: "set P = {0..<N}" using perm_range [OF m] by auto
  have un: "set P = set (take kth P) \<union> set (drop kth P)"
    by (metis append_take_drop_id set_append)
  have "i \<in> set P" using i(1) sp by simp
  then have "i \<in> set (take kth P)" using i(2) un by blast
  then obtain a where a: "a < kth" "P ! a = i"
    using len k by (auto simp: in_set_conv_nth)
  obtain b where b: "b < N - kth" "drop kth P ! b = j"
    using j len by (auto simp: in_set_conv_nth)
  have pb: "P ! (kth + b) = j" using b len by simp
  have "L ! (P ! a) \<le> L ! (P ! kth)" using c a(1) k by simp
  moreover have "L ! (P ! kth) \<le> L ! (P ! (kth + b))"
  proof (cases "b = 0")
    case True
    then show ?thesis by simp
  next
    case False
    then show ?thesis using c b(1) by simp
  qed
  ultimately show "L ! i \<le> L ! j" using a(2) pb by simp
qed

lemma partition_lower_part:
  fixes L :: "real list"
  assumes m: "mset P = mset [0..<N]" and k: "kth < N"
    and c: "\<forall>i<N. (i < kth \<longrightarrow> L ! (P ! i) \<le> L ! (P ! kth))
                  \<and> (kth < i \<longrightarrow> L ! (P ! kth) \<le> L ! (P ! i))"
  shows "\<forall>i<N. i \<notin> set (take kth P) \<longrightarrow> (\<forall>j \<in> set (take kth P). L ! j \<le> L ! i)"
proof (intro allI impI ballI)
  fix i j assume i: "i < N" "i \<notin> set (take kth P)" and j: "j \<in> set (take kth P)"
  have len: "length P = N" and sp: "set P = {0..<N}" using perm_range [OF m] by auto
  have un: "set P = set (take kth P) \<union> set (drop kth P)"
    by (metis append_take_drop_id set_append)
  have "i \<in> set P" using i(1) sp by simp
  then have "i \<in> set (drop kth P)" using i(2) un by blast
  then obtain b where b: "b < N - kth" "drop kth P ! b = i"
    using len by (auto simp: in_set_conv_nth)
  have pb: "P ! (kth + b) = i" using b len by simp
  obtain a where a: "a < kth" "P ! a = j"
    using j len k by (auto simp: in_set_conv_nth)
  have "L ! (P ! a) \<le> L ! (P ! kth)" using c a(1) k by simp
  moreover have "L ! (P ! kth) \<le> L ! (P ! (kth + b))"
  proof (cases "b = 0")
    case True
    then show ?thesis by simp
  next
    case False
    then show ?thesis using c b(1) by simp
  qed
  ultimately show "L ! j \<le> L ! i" using a(2) pb by simp
qed

lemma parts_disjoint:
  fixes L :: "real list"
  assumes m1: "mset P1 = mset [0..<N]" and m2: "mset P2 = mset [0..<N]"
    and k1: "k1 < N" and k21: "k2 \<le> k1"
    and c1: "\<forall>i<N. (i < k1 \<longrightarrow> L ! (P1 ! i) \<le> L ! (P1 ! k1))
                  \<and> (k1 < i \<longrightarrow> L ! (P1 ! k1) \<le> L ! (P1 ! i))"
    and c2: "\<forall>i<N. (i < k2 \<longrightarrow> L ! (P2 ! i) \<le> L ! (P2 ! k2))
                  \<and> (k2 < i \<longrightarrow> L ! (P2 ! k2) \<le> L ! (P2 ! i))"
    and inj: "distinct L" and lenL: "length L = N"
  shows "set (drop k1 P1) \<inter> set (take k2 P2) = {}"
proof (rule ccontr)
  assume "set (drop k1 P1) \<inter> set (take k2 P2) \<noteq> {}"
  then obtain x where xB: "x \<in> set (drop k1 P1)" and xA: "x \<in> set (take k2 P2)" by blast
  have k2: "k2 < N" using k1 k21 by simp
  have p1: "length P1 = N" "distinct P1" "set P1 = {0..<N}" using perm_range [OF m1] by auto
  have p2: "length P2 = N" "distinct P2" "set P2 = {0..<N}" using perm_range [OF m2] by auto
  define A where "A = set (take k2 P2)"
  define B where "B = set (drop k1 P1)"
  have u1: "set P1 = set (take k1 P1) \<union> set (drop k1 P1)"
    by (metis append_take_drop_id set_append)
  have u2: "set P2 = set (take k2 P2) \<union> set (drop k2 P2)"
    by (metis append_take_drop_id set_append)
  have low1: "\<forall>y \<in> set (take k1 P1). L ! y \<le> L ! (P1 ! k1)"
  proof
    fix y assume "y \<in> set (take k1 P1)"
    then obtain a where "a < k1" "P1 ! a = y" using p1(1) k1 by (auto simp: in_set_conv_nth)
    then show "L ! y \<le> L ! (P1 ! k1)" using c1 k1 by force
  qed
  have up1: "\<forall>y \<in> set (drop k1 P1). L ! (P1 ! k1) \<le> L ! y"
  proof
    fix y assume "y \<in> set (drop k1 P1)"
    then obtain b where b: "b < N - k1" "drop k1 P1 ! b = y"
      using p1(1) by (auto simp: in_set_conv_nth)
    then have pb: "P1 ! (k1 + b) = y" using p1(1) by simp
    show "L ! (P1 ! k1) \<le> L ! y"
    proof (cases "b = 0")
      case True
      then show ?thesis using pb by simp
    next
      case False
      then have "L ! (P1 ! k1) \<le> L ! (P1 ! (k1 + b))" using c1 b(1) by simp
      then show ?thesis using pb by simp
    qed
  qed
  have up2: "\<forall>y \<in> set (drop k2 P2). L ! (P2 ! k2) \<le> L ! y"
  proof
    fix y assume "y \<in> set (drop k2 P2)"
    then obtain b where b: "b < N - k2" "drop k2 P2 ! b = y"
      using p2(1) by (auto simp: in_set_conv_nth)
    then have pb: "P2 ! (k2 + b) = y" using p2(1) by simp
    show "L ! (P2 ! k2) \<le> L ! y"
    proof (cases "b = 0")
      case True
      then show ?thesis using pb by simp
    next
      case False
      then have "L ! (P2 ! k2) \<le> L ! (P2 ! (k2 + b))" using c2 b(1) by simp
      then show ?thesis using pb by simp
    qed
  qed
  obtain a where a: "a < k2" "P2 ! a = x" using xA p2(1) k2 by (auto simp: in_set_conv_nth)
  have "L ! x \<le> L ! (P2 ! k2)" using c2 a k2 by force
  moreover have "L ! x \<noteq> L ! (P2 ! k2)"
  proof
    assume e: "L ! x = L ! (P2 ! k2)"
    have "x < N" using xA p2(3) u2 by auto
    moreover have "P2 ! k2 < N" using p2(1,3) k2 by (metis atLeastLessThan_iff nth_mem)
    ultimately have "x = P2 ! k2" using e inj lenL by (simp add: nth_eq_iff_index_eq)
    then have "P2 ! a = P2 ! k2" using a(2) by simp
    then have "a = k2" using p2(1,2) a(1) k2 by (simp add: nth_eq_iff_index_eq)
    then show False using a(1) by simp
  qed
  ultimately have lt2: "L ! x < L ! (P2 ! k2)" by simp
  have "L ! (P1 ! k1) \<le> L ! x" using up1 xB by blast
  then have v12: "L ! (P1 ! k1) < L ! (P2 ! k2)" using lt2 by simp
  have cover: "{0..<N} \<subseteq> A \<union> B"
  proof
    fix y assume "y \<in> {0..<N}"
    then have y1: "y \<in> set P1" and y2: "y \<in> set P2" using p1(3) p2(3) by auto
    show "y \<in> A \<union> B"
    proof (cases "y \<in> set (take k2 P2)")
      case True
      then show ?thesis unfolding A_def by simp
    next
      case False
      then have "y \<in> set (drop k2 P2)" using y2 u2 by blast
      then have "L ! (P2 ! k2) \<le> L ! y" using up2 by blast
      then have big: "L ! (P1 ! k1) < L ! y" using v12 by simp
      have "y \<notin> set (take k1 P1)"
      proof
        assume "y \<in> set (take k1 P1)"
        then have "L ! y \<le> L ! (P1 ! k1)" using low1 by blast
        then show False using big by simp
      qed
      then have "y \<in> set (drop k1 P1)" using y1 u1 by blast
      then show ?thesis unfolding B_def by simp
    qed
  qed
  have fin: "finite A" "finite B" unfolding A_def B_def by simp_all
  have cA: "card A \<le> k2" unfolding A_def
    by (metis card_length length_take min.cobounded2 order_trans)
  have cB: "card B \<le> N - k1" unfolding B_def
    by (metis card_length length_drop p1(1))
  have "x \<in> A \<inter> B" using xA xB unfolding A_def B_def by simp
  then have "1 \<le> card (A \<inter> B)" using fin by (metis Suc_leI One_nat_def card_gt_0_iff empty_iff finite_Int)
  moreover have "card (A \<union> B) + card (A \<inter> B) = card A + card B"
    using fin by (rule card_Un_Int [symmetric])
  moreover have "N \<le> card (A \<union> B)"
    using cover fin by (metis card_atLeastLessThan card_mono diff_zero finite_UnI)
  ultimately show False using cA cB k1 k21 by linarith
qed

text \<open>
  Claim C6, amended. For \<open>N \<ge> 1\<close> peaks, a target count \<open>k \<ge> 1\<close> and every
  \<open>argpartition\<close> that meets numpy's contract, \<open>choose_peak_ids\<close> returns
  \<open>n = min N k\<close> indices below \<open>N\<close>. The first \<open>(n + 1) div 2\<close>, that is
  \<open>ceil(n / 2)\<close>, are distinct indices of longest vectors: no vector outside the group is
  longer than one inside. The remaining ones are distinct indices of shortest vectors. For
  \<open>k \<ge> N\<close> the result holds every index below \<open>N\<close> exactly once, and for all \<open>k\<close> the
  indices are distinct when the norms are pairwise different. The result is a function of
  the peaks and the count, as \<open>argpartition\<close> is a function of its arguments. The two
  groups come from two separate partitions, so with equal norms and \<open>k < N\<close> they can
  share an index.
\<close>

theorem choose_peak_ids_selection:
  assumes ok: "argpartition_ok ap" and ne: "peaks \<noteq> []" and k1: "1 \<le> k"
  shows "\<exists>ids. choose_peak_ids ap peaks k = Inr ids
    \<and> length ids = min (length peaks) (nat k)
    \<and> set ids \<subseteq> {0..<length peaks}
    \<and> length (take ((min (length peaks) (nat k) + 1) div 2) ids)
        = (min (length peaks) (nat k) + 1) div 2
    \<and> distinct (take ((min (length peaks) (nat k) + 1) div 2) ids)
    \<and> (\<forall>i<length peaks. i \<notin> set (take ((min (length peaks) (nat k) + 1) div 2) ids) \<longrightarrow>
          (\<forall>j \<in> set (take ((min (length peaks) (nat k) + 1) div 2) ids).
              np_linalg_norm (peaks ! i) \<le> np_linalg_norm (peaks ! j)))
    \<and> distinct (drop ((min (length peaks) (nat k) + 1) div 2) ids)
    \<and> (\<forall>i<length peaks. i \<notin> set (drop ((min (length peaks) (nat k) + 1) div 2) ids) \<longrightarrow>
          (\<forall>j \<in> set (drop ((min (length peaks) (nat k) + 1) div 2) ids).
              np_linalg_norm (peaks ! j) \<le> np_linalg_norm (peaks ! i)))
    \<and> (int (length peaks) \<le> k \<longrightarrow> distinct ids \<and> set ids = {0..<length peaks})
    \<and> (distinct (map np_linalg_norm peaks) \<longrightarrow> distinct ids)"
proof -
  define N where "N = length peaks"
  define n where "n = min N (nat k)"
  define nl where "nl = (n + 1) div 2"
  define ns where "ns = n - nl"
  define L where "L = map np_linalg_norm peaks"
  define P1 where "P1 = ap L (N - nl)"
  define P2 where "P2 = ap L ns"
  define ids where "ids = drop (N - nl) P1 @ take ns P2"
  have N1: "1 \<le> N" using ne unfolding N_def by (cases peaks) auto
  have n1: "1 \<le> n" and nN: "n \<le> N" using N1 k1 unfolding n_def by auto
  have nl1: "1 \<le> nl" and nln: "nl \<le> n" using n1 unfolding nl_def by auto
  have kth1: "N - nl < N" using nl1 N1 by simp
  have kth2: "ns < N" using nl1 nN nln unfolding ns_def by simp
  have k21: "ns \<le> N - nl" using nN unfolding ns_def by simp
  have lenL: "length L = N" unfolding L_def N_def by simp
  have Ln: "\<And>i. i < N \<Longrightarrow> L ! i = np_linalg_norm (peaks ! i)"
    unfolding L_def N_def by simp
  have run: "choose_peak_ids ap peaks k = Inr ids"
    unfolding ids_def P1_def P2_def ns_def nl_def n_def N_def L_def
    by (rule choose_peak_ids_run [OF ne k1])
  from ok kth1 lenL have m1: "mset P1 = mset [0..<N]"
    and c1: "\<forall>i<N. (i < N - nl \<longrightarrow> L ! (P1 ! i) \<le> L ! (P1 ! (N - nl)))
                  \<and> (N - nl < i \<longrightarrow> L ! (P1 ! (N - nl)) \<le> L ! (P1 ! i))"
    unfolding argpartition_ok_def P1_def by metis+
  from ok kth2 lenL have m2: "mset P2 = mset [0..<N]"
    and c2: "\<forall>i<N. (i < ns \<longrightarrow> L ! (P2 ! i) \<le> L ! (P2 ! ns))
                  \<and> (ns < i \<longrightarrow> L ! (P2 ! ns) \<le> L ! (P2 ! i))"
    unfolding argpartition_ok_def P2_def by metis+
  have p1: "length P1 = N" "distinct P1" "set P1 = {0..<N}" using perm_range [OF m1] by auto
  have p2: "length P2 = N" "distinct P2" "set P2 = {0..<N}" using perm_range [OF m2] by auto
  have lenlong: "length (drop (N - nl) P1) = nl" using p1(1) nln nN by simp
  have lenshort: "length (take ns P2) = ns" using p2(1) kth2 by simp
  have tk: "take nl ids = drop (N - nl) P1" unfolding ids_def using lenlong by simp
  have dr: "drop nl ids = take ns P2" unfolding ids_def using lenlong by simp
  have a: "length ids = n" unfolding ids_def using lenlong lenshort nln by (simp add: ns_def)
  have "set (drop (N - nl) P1) \<subseteq> set P1" by (rule set_drop_subset)
  moreover have "set (take ns P2) \<subseteq> set P2" by (rule set_take_subset)
  ultimately have b: "set ids \<subseteq> {0..<N}" unfolding ids_def using p1(3) p2(3) by auto
  have c: "length (take nl ids) = nl" unfolding tk by (rule lenlong)
  have d: "distinct (take nl ids)" unfolding tk using p1(2) by simp
  have e: "\<forall>i<N. i \<notin> set (take nl ids) \<longrightarrow>
          (\<forall>j \<in> set (take nl ids). np_linalg_norm (peaks ! i) \<le> np_linalg_norm (peaks ! j))"
  proof (intro allI impI ballI)
    fix i j assume i: "i < N" "i \<notin> set (take nl ids)" and j: "j \<in> set (take nl ids)"
    have "j \<in> set P1" using j set_drop_subset unfolding tk by fast
    then have jN: "j < N" using p1(3) by simp
    have "L ! i \<le> L ! j"
      using partition_upper_part [OF m1 kth1 c1] i j unfolding tk by blast
    then show "np_linalg_norm (peaks ! i) \<le> np_linalg_norm (peaks ! j)"
      using Ln i(1) jN by simp
  qed
  have f: "distinct (drop nl ids)" unfolding dr using p2(2) by simp
  have g: "\<forall>i<N. i \<notin> set (drop nl ids) \<longrightarrow>
          (\<forall>j \<in> set (drop nl ids). np_linalg_norm (peaks ! j) \<le> np_linalg_norm (peaks ! i))"
  proof (intro allI impI ballI)
    fix i j assume i: "i < N" "i \<notin> set (drop nl ids)" and j: "j \<in> set (drop nl ids)"
    have "j \<in> set P2" using j set_take_subset unfolding dr by fast
    then have jN: "j < N" using p2(3) by simp
    have "L ! j \<le> L ! i"
      using partition_lower_part [OF m2 kth2 c2] i j unfolding dr by blast
    then show "np_linalg_norm (peaks ! j) \<le> np_linalg_norm (peaks ! i)"
      using Ln i(1) jN by simp
  qed
  have h: "int N \<le> k \<longrightarrow> distinct ids \<and> set ids = {0..<N}"
  proof
    assume "int N \<le> k"
    then have "n = N" unfolding n_def by simp
    then have same: "N - nl = ns" unfolding ns_def by simp
    then have P12: "P1 = P2" unfolding P1_def P2_def by simp
    have un: "set P2 = set (take ns P2) \<union> set (drop ns P2)"
      by (metis append_take_drop_id set_append)
    have dj: "set (take ns P2) \<inter> set (drop ns P2) = {}"
      using p2(2) by (intro set_take_disj_set_drop_if_distinct) simp_all
    have i2: "ids = drop ns P2 @ take ns P2" unfolding ids_def same P12 by simp
    have "distinct ids" unfolding i2 using p2(2) dj by auto
    moreover have "set ids = {0..<N}" unfolding i2 using un p2(3) by auto
    ultimately show "distinct ids \<and> set ids = {0..<N}" by simp
  qed
  have i: "distinct (map np_linalg_norm peaks) \<longrightarrow> distinct ids"
  proof
    assume "distinct (map np_linalg_norm peaks)"
    then have inj: "distinct L" unfolding L_def .
    have "set (drop (N - nl) P1) \<inter> set (take ns P2) = {}"
      by (rule parts_disjoint [OF m1 m2 kth1 k21 c1 c2 inj lenL])
    then show "distinct ids" unfolding ids_def using p1(2) p2(2) by simp
  qed
  from run a b c d e f g h i show ?thesis
    unfolding nl_def n_def N_def by blast
qed

theorem choose_peak_ids_selection_witness:
  "argpartition_ok argpartition_sorted
   \<and> choose_peak_ids argpartition_sorted [(1, 0, 0), (0, 0, 0)] 2 = Inr [0, 1]
   \<and> (\<exists>ids. choose_peak_ids argpartition_sorted [(1, 0, 0), (0, 0, 0), (2, 0, 0)] 2 = Inr ids
        \<and> length ids = 2 \<and> distinct (take 1 ids) \<and> distinct (drop 1 ids))"
proof -
  let ?P = "[(1, 0, 0), (0, 0, 0), (2, 0, 0)] :: vec list"
  have h2: "?P \<noteq> []" by simp
  have h3: "(1::int) \<le> 2" by simp
  from choose_peak_ids_selection [OF argpartition_sorted_ok h2 h3]
  obtain ids where "choose_peak_ids argpartition_sorted ?P 2 = Inr ids"
    "length ids = min (length ?P) (nat 2)"
    "distinct (take ((min (length ?P) (nat 2) + 1) div 2) ids)"
    "distinct (drop ((min (length ?P) (nat 2) + 1) div 2) ids)"
    by blast
  then have a: "\<exists>ids. choose_peak_ids argpartition_sorted ?P 2 = Inr ids
        \<and> length ids = 2 \<and> distinct (take 1 ids) \<and> distinct (drop 1 ids)"
    by simp
  have up: "[0..<2] = [0, 1]" by (simp add: upt_rec)
  have b: "choose_peak_ids argpartition_sorted [(1, 0, 0), (0, 0, 0)] 2 = Inr [0, 1]"
    by (simp add: choose_peak_ids_def ceiling_half argpartition_sorted_def np_argsort_stable_def
        np_linalg_norm_def Let_def up)
  from argpartition_sorted_ok a b show ?thesis by blast
qed

text \<open>
  Five peaks of norm 1 and four indices to choose, with a partition that meets the contract:
  index 1 and index 0 are chosen twice.
\<close>

lemma up5: "[0..<5] = [0, 1, 2, 3, 4]" by (simp add: upt_rec)

theorem choose_peak_ids_overlap_counterexample:
  "argpartition_ok argpartition_ties
   \<and> choose_peak_ids argpartition_ties
        [(1, 0, 0), (0, 1, 0), (0, 0, 1), (- 1, 0, 0), (0, - 1, 0)] 4 = Inr [1, 0, 0, 1]
   \<and> \<not> distinct [1, 0, 0, 1 :: nat]"
proof -
  have "choose_peak_ids argpartition_ties
        [(1, 0, 0), (0, 1, 0), (0, 0, 1), (- 1, 0, 0), (0, - 1, 0)] 4 = Inr [1, 0, 0, 1]"
    by (simp add: choose_peak_ids_def ceiling_half argpartition_ties_def np_argsort_stable_def
        np_linalg_norm_def Let_def up5)
  then show ?thesis using argpartition_ties_ok by simp
qed

section \<open>Properties of the template correlation\<close>

text \<open>A list of results without an error is the list of the values.\<close>

lemma sequence_err_all:
  assumes "\<forall>x \<in> set xs. f x = Inr (g x)"
  shows "sequence_err (map f xs) = Inr (map g xs)"
  using assms by (induction xs) (simp_all add: bind_err_def)

lemma sequence_err_length:
  assumes "sequence_err xs = Inr ys"
  shows "length ys = length xs"
  using assms
proof (induction xs arbitrary: ys)
  case Nil
  then show ?case by simp
next
  case (Cons x xs)
  then show ?case
    by (auto simp: bind_err_def split: sum.splits)
qed

lemma bind_err_Inr: "bind_err (Inr x) f = f x"
  by (simp add: bind_err_def)

lemma np_get_nat: "i < length xs \<Longrightarrow> np_get xs (int i) = Inr (xs ! i)"
  by (simp add: np_get_def Let_def)

lemma correlate_phase_block:
  assumes oks: "argsort_ok argsort" and okp: "argpartition_ok argpartition"
    and pc: "phase_correlations img e = Inr cs"
    and n1: "1 \<le> n" and nsz: "n \<le> length cs"
    and rect: "\<forall>row \<in> set (templates e). length row = length (orientations e)"
  shows "\<exists>blk. correlate_phase argsort argpartition img n (i, e) = Inr blk
      \<and> length blk = n \<and> (\<forall>r \<in> set blk. t_phase r = i \<and> t_correlation r \<in> set cs)
      \<and> sorted (rev (map t_correlation blk))"
proof -
  define size where "size = length cs"
  define norient where "norient = length (orientations e)"
  define P where "P = argpartition cs (size - n)"
  define part where "part = drop (size - n) P"
  define tc where "tc = map (\<lambda>i. cs ! i) part"
  define A where "A = argsort tc"
  define top where "top = map (\<lambda>i. part ! i) (rev A)"
  define g where "g = (\<lambda>index. case orientations e ! (index mod norient) of (z1, x, z2) \<Rightarrow>
      TemplateRow i (z1, x, z2 + real (index div norient) * (360 / real (length (templates e))))
        (cs ! index))"
  have sz1: "1 \<le> size" using n1 nsz unfolding size_def by simp
  have "length cs = length (map (template_correlation img) (concat (templates e)))"
    using sequence_err_length pc unfolding phase_correlations_def by blast
  then have lc: "size = length (concat (templates e))" unfolding size_def by simp
  have "size = length (templates e) * norient"
    unfolding lc norient_def using length_concat_uniform [OF rect] .
  then have Opos: "0 < norient" and tne: "templates e \<noteq> []" using sz1 by auto
  then obtain row rest where tr: "templates e = row # rest" by (cases "templates e") auto
  have no: "(case templates e of [] \<Rightarrow> 0 | row # _ \<Rightarrow> length row) = norient"
    unfolding tr norient_def using rect tr by simp
  have kth: "size - n < length cs" using n1 sz1 unfolding size_def by simp
  have mP: "mset P = mset [0..<size]"
    using okp kth unfolding argpartition_ok_def P_def size_def by blast
  have lP: "length P = size" using mset_eq_length [OF mP] by simp
  have lpart: "length part = n" unfolding part_def using lP nsz size_def by simp
  have ltc: "length tc = n" unfolding tc_def using lpart by simp
  have mA: "mset A = mset [0..<n]" and sA: "sorted (map (\<lambda>i. tc ! i) A)"
    using oks ltc unfolding argsort_ok_def A_def by metis+
  have lA: "length A = n" using mset_eq_length [OF mA] by simp
  have setA: "set A = {0..<n}" using mset_eq_setD [OF mA] by simp
  have ltop: "length top = n" unfolding top_def using lA by simp
  define F where "F = (\<lambda>index.
      bind_err (np_get (orientations e) (int (index mod norient)))
        (\<lambda>orientation. case orientation of (z1, x, z2) \<Rightarrow>
           Inr (TemplateRow i (z1, x, z2 + real (index div norient) * (360 / real (length (templates e))))
                  (cs ! index))))"
  have fg: "\<forall>index \<in> set top. F index = Inr (g index)"
  proof
    fix index assume "index \<in> set top"
    have "index mod norient < length (orientations e)" using Opos unfolding norient_def by simp
    then have "np_get (orientations e) (int (index mod norient)) = Inr (orientations e ! (index mod norient))"
      by (rule np_get_nat)
    then show "F index = Inr (g index)"
      unfolding g_def F_def by (simp add: bind_err_def split: prod.splits)
  qed
  have cne: "cs \<noteq> []" using n1 nsz by auto
  have nn0: "n \<noteq> 0" using n1 by simp
  have nlt: "\<not> length cs < n" using nsz by simp
  have "correlate_phase argsort argpartition img n (i, e) = sequence_err (map F top)"
    unfolding correlate_phase_def F_def top_def A_def tc_def part_def P_def size_def
    by (simp add: pc bind_err_Inr Let_def no cne nn0 nlt del: map_map)
  also have "\<dots> = Inr (map g top)" using fg by (rule sequence_err_all)
  finally have run: "correlate_phase argsort argpartition img n (i, e) = Inr (map g top)" .
  have setP: "set P = {0..<size}" using mset_eq_setD [OF mP] by simp
  have "set part \<subseteq> set P" unfolding part_def by (rule set_drop_subset)
  then have partlt: "\<forall>x \<in> set part. x < length cs" using setP unfolding size_def by auto
  have toplt: "\<forall>x \<in> set top. x < length cs"
    unfolding top_def using setA lpart partlt by auto
  have ph: "\<forall>r \<in> set (map g top). t_phase r = i \<and> t_correlation r \<in> set cs"
    unfolding g_def using toplt by (auto split: prod.splits)
  have "map t_correlation (map g top) = map (\<lambda>index. cs ! index) top"
    unfolding g_def by (auto split: prod.splits)
  also have "\<dots> = map (\<lambda>a. tc ! a) (rev A)"
    unfolding top_def tc_def using setA lpart by auto
  also have "\<dots> = rev (map (\<lambda>a. tc ! a) A)" by (simp add: rev_map)
  finally have "rev (map t_correlation (map g top)) = map (\<lambda>a. tc ! a) A" by simp
  then have so: "sorted (rev (map t_correlation (map g top)))" using sA by simp
  from run ltop ph so show ?thesis by (intro exI [of _ "map g top"]) simp
qed

lemma sequence_err_ex:
  assumes "\<forall>x \<in> set xs. \<exists>y. f x = Inr y \<and> Q x y"
  shows "\<exists>ys. sequence_err (map f xs) = Inr ys \<and> length ys = length xs
           \<and> (\<forall>k < length xs. Q (xs ! k) (ys ! k))"
  using assms
proof (induction xs)
  case Nil
  then show ?case by simp
next
  case (Cons x xs)
  from Cons.prems obtain y where y: "f x = Inr y" "Q x y" by auto
  from Cons obtain ys where ys: "sequence_err (map f xs) = Inr ys" "length ys = length xs"
    "\<forall>k < length xs. Q (xs ! k) (ys ! k)" by auto
  have run: "sequence_err (map f (x # xs)) = Inr (y # ys)"
    using y(1) ys(1) by (simp add: bind_err_Inr)
  have "\<forall>k < length (x # xs). Q ((x # xs) ! k) ((y # ys) ! k)"
  proof (intro allI impI)
    fix k assume "k < length (x # xs)"
    then show "Q ((x # xs) ! k) ((y # ys) ! k)"
      using y(2) ys(3) by (cases k) auto
  qed
  with run ys(2) show ?case by (intro exI [of _ "y # ys"]) simp
qed

lemma image_at_error:
  assumes "image_at img xy = Inl err"
  shows "err = IndexError"
  using assms
  by (auto simp: image_at_def np_get_def bind_err_def Let_def split: prod.splits sum.splits if_splits)

lemma phase_correlations_defined:
  assumes "\<forall>t \<in> set (concat (templates e)). \<forall>xy \<in> set (pixel_coords t).
             image_at img xy \<noteq> Inl IndexError"
  shows "\<exists>cs. phase_correlations img e = Inr cs
           \<and> length cs = length (concat (templates e))"
proof -
  have "\<forall>t \<in> set (concat (templates e)). \<exists>c. template_correlation img t = Inr c \<and> True"
  proof
    fix t assume t: "t \<in> set (concat (templates e))"
    have "\<forall>xy \<in> set (pixel_coords t). \<exists>v. image_at img xy = Inr v \<and> True"
    proof
      fix xy assume "xy \<in> set (pixel_coords t)"
      then have "image_at img xy \<noteq> Inl IndexError" using assms t by blast
      then show "\<exists>v. image_at img xy = Inr v \<and> True"
        using image_at_error [of img xy] by (cases "image_at img xy") auto
    qed
    from sequence_err_ex [OF this] obtain vs
      where "sequence_err (map (image_at img) (pixel_coords t)) = Inr vs" by blast
    then show "\<exists>c. template_correlation img t = Inr c \<and> True"
      unfolding template_correlation_def by (simp add: bind_err_Inr)
  qed
  from sequence_err_ex [OF this] show ?thesis
    unfolding phase_correlations_def by auto
qed

text \<open>
  Claim C7, amended. Let the sorting functions meet their contracts, let the retained count
  \<open>n\<close> be at least 1, and let every phase of the library have a rectangular grid of
  templates with one column per orientation, at least \<open>n\<close> templates, non-zero pattern
  norms and pixel coordinates that index the image. Then, with the index flag set,
  \<^verbatim>\<open>correlate_library\<close> returns exactly \<open>p * n\<close> filled rows for a library of \<open>p\<close>
  phases. The block of phase \<open>i\<close> is the rows \<open>i * n\<close> to \<open>i * n + n - 1\<close>: each of
  them carries the phase index \<open>i\<close> and a correlation of that phase, and the correlations
  within the block are non-increasing.
\<close>

theorem correlate_library_blocks:
  assumes oks: "argsort_ok argsort" and okp: "argpartition_ok argpartition"
    and n1: "1 \<le> n"
    and wf: "\<forall>e \<in> set library.
               (\<forall>row \<in> set (templates e). length row = length (orientations e))
             \<and> n \<le> length (concat (templates e))
             \<and> (\<forall>t \<in> set (concat (templates e)).
                   pattern_norm t \<noteq> 0
                 \<and> (\<forall>xy \<in> set (pixel_coords t). image_at img xy \<noteq> Inl IndexError))"
  shows "\<exists>rows. correlate_library argsort argpartition img library (int n) True
                  = Inr (map Some rows)
           \<and> length rows = length library * n
           \<and> (\<forall>i < length library. \<forall>j < n.
                  t_phase (rows ! (i * n + j)) = i
                \<and> (\<exists>cs. phase_correlations img (library ! i) = Inr cs
                         \<and> t_correlation (rows ! (i * n + j)) \<in> set cs)
                \<and> (\<forall>j'. j \<le> j' \<and> j' < n \<longrightarrow>
                       t_correlation (rows ! (i * n + j'))
                         \<le> t_correlation (rows ! (i * n + j))))"
proof -
  define p where "p = length library"
  define xs where "xs = zip [0..<p] library"
  define Q where "Q = (\<lambda>x (blk :: vec template_row list). length blk = n
      \<and> (\<forall>r \<in> set blk. t_phase r = fst (x :: nat \<times> library_entry)
            \<and> (\<exists>cs. phase_correlations img (snd x) = Inr cs \<and> t_correlation r \<in> set cs))
      \<and> sorted (rev (map t_correlation blk)))"
  have each: "\<forall>x \<in> set xs. \<exists>blk. correlate_phase argsort argpartition img n x = Inr blk \<and> Q x blk"
  proof
    fix x assume x: "x \<in> set xs"
    obtain i e where ie: "x = (i, e)" by (cases x)
    have e: "e \<in> set library" using x unfolding xs_def ie by (rule set_zip_rightD)
    from wf e have rect: "\<forall>row \<in> set (templates e). length row = length (orientations e)"
      and nle: "n \<le> length (concat (templates e))"
      and inb: "\<forall>t \<in> set (concat (templates e)). \<forall>xy \<in> set (pixel_coords t).
             image_at img xy \<noteq> Inl IndexError" by blast+
    from phase_correlations_defined [OF inb] obtain cs
      where cs: "phase_correlations img e = Inr cs" "length cs = length (concat (templates e))"
      by blast
    have nsz: "n \<le> length cs" using nle cs(2) by simp
    from correlate_phase_block [OF oks okp cs(1) n1 nsz rect, of i] obtain blk
      where "correlate_phase argsort argpartition img n (i, e) = Inr blk" "length blk = n"
        "\<forall>r \<in> set blk. t_phase r = i \<and> t_correlation r \<in> set cs"
        "sorted (rev (map t_correlation blk))" by blast
    then show "\<exists>blk. correlate_phase argsort argpartition img n x = Inr blk \<and> Q x blk"
      unfolding ie Q_def using cs(1) by auto
  qed
  from sequence_err_ex [OF each] obtain blocks
    where run: "sequence_err (map (correlate_phase argsort argpartition img n) xs) = Inr blocks"
      and lb: "length blocks = length xs"
      and qb: "\<forall>k < length xs. Q (xs ! k) (blocks ! k)" by blast
  have lxs: "length xs = p" unfolding xs_def p_def by simp
  have xk: "\<And>k. k < p \<Longrightarrow> xs ! k = (k, library ! k)"
    unfolding xs_def p_def by simp
  have uni: "\<forall>b \<in> set blocks. length b = n"
  proof
    fix b assume "b \<in> set blocks"
    then obtain k where k: "k < length blocks" "b = blocks ! k" by (auto simp: in_set_conv_nth)
    then have "Q (xs ! k) b" using qb lb by simp
    then show "length b = n" unfolding Q_def by (simp add: case_prod_beta)
  qed
  define rows where "rows = concat blocks"
  have res: "correlate_library argsort argpartition img library (int n) True = Inr (map Some rows)"
    unfolding correlate_library_def rows_def
    using run by (simp add: bind_err_Inr xs_def p_def)
  have lr: "length rows = length library * n"
    unfolding rows_def using length_concat_uniform [OF uni] lb lxs p_def by simp
  have props: "\<forall>i < length library. \<forall>j < n.
                  t_phase (rows ! (i * n + j)) = i
                \<and> (\<exists>cs. phase_correlations img (library ! i) = Inr cs
                         \<and> t_correlation (rows ! (i * n + j)) \<in> set cs)
                \<and> (\<forall>j'. j \<le> j' \<and> j' < n \<longrightarrow>
                       t_correlation (rows ! (i * n + j'))
                         \<le> t_correlation (rows ! (i * n + j)))"
  proof (intro allI impI)
    fix i j assume i: "i < length library" and j: "j < n"
    have ip: "i < p" using i p_def by simp
    have ib: "i < length blocks" using ip lb lxs by simp
    have q: "Q (i, library ! i) (blocks ! i)" using qb ip lxs xk by simp
    then have lbi: "length (blocks ! i) = n"
      and pr: "\<forall>r \<in> set (blocks ! i). t_phase r = i
            \<and> (\<exists>cs. phase_correlations img (library ! i) = Inr cs \<and> t_correlation r \<in> set cs)"
      and so: "sorted (rev (map t_correlation (blocks ! i)))"
      unfolding Q_def by simp_all
    have at: "\<And>m. m < n \<Longrightarrow> rows ! (i * n + m) = blocks ! i ! m"
      unfolding rows_def using nth_concat_uniform [OF uni ib] by simp
    have mem: "blocks ! i ! j \<in> set (blocks ! i)" using j lbi by simp
    have mono: "\<forall>j'. j \<le> j' \<and> j' < n \<longrightarrow>
                       t_correlation (rows ! (i * n + j')) \<le> t_correlation (rows ! (i * n + j))"
    proof (intro allI impI)
      fix j' assume jj: "j \<le> j' \<and> j' < n"
      have "map t_correlation (blocks ! i) ! j' \<le> map t_correlation (blocks ! i) ! j"
        using sorted_rev_nth_mono [OF so, of j j'] jj lbi by simp
      then show "t_correlation (rows ! (i * n + j')) \<le> t_correlation (rows ! (i * n + j))"
        using at [of j] at [of j'] jj j lbi by simp
    qed
    show "t_phase (rows ! (i * n + j)) = i
                \<and> (\<exists>cs. phase_correlations img (library ! i) = Inr cs
                         \<and> t_correlation (rows ! (i * n + j)) \<in> set cs)
                \<and> (\<forall>j'. j \<le> j' \<and> j' < n \<longrightarrow>
                       t_correlation (rows ! (i * n + j'))
                         \<le> t_correlation (rows ! (i * n + j)))"
      using pr mem mono at [OF j] by simp
  qed
  from res lr props show ?thesis by blast
qed

theorem correlate_library_blocks_witness:
  "argsort_ok np_argsort_stable \<and> argpartition_ok argpartition_sorted
   \<and> phase_correlations [[1, 2], [3, 4]]
        \<lparr>orientations = [(0, 0, 0), (10, 20, 30)],
         templates = [[\<lparr>pixel_coords = [(0, 0)], intensities = [1], pattern_norm = 1\<rparr>,
                       \<lparr>pixel_coords = [(1, 0)], intensities = [1], pattern_norm = 1\<rparr>]]\<rparr>
       = Inr [1, 2]
   \<and> (\<exists>rows. correlate_library np_argsort_stable argpartition_sorted [[1, 2], [3, 4]]
          [\<lparr>orientations = [(0, 0, 0), (10, 20, 30)],
            templates = [[\<lparr>pixel_coords = [(0, 0)], intensities = [1], pattern_norm = 1\<rparr>,
                          \<lparr>pixel_coords = [(1, 0)], intensities = [1], pattern_norm = 1\<rparr>]]\<rparr>,
           \<lparr>orientations = [(0, 0, 0), (10, 20, 30)],
            templates = [[\<lparr>pixel_coords = [(0, 1)], intensities = [1], pattern_norm = 1\<rparr>,
                          \<lparr>pixel_coords = [(-1, -1)], intensities = [1], pattern_norm = 2\<rparr>]]\<rparr>]
          2 True = Inr (map Some rows)
        \<and> length rows = 4
        \<and> t_phase (rows ! 2) = 1
        \<and> t_correlation (rows ! 1) \<le> t_correlation (rows ! 0))"
proof -
  let ?img = "[[1, 2], [3, 4]] :: real list list"
  let ?e0 = "\<lparr>orientations = [(0, 0, 0), (10, 20, 30)],
         templates = [[\<lparr>pixel_coords = [(0, 0)], intensities = [1], pattern_norm = 1\<rparr>,
                       \<lparr>pixel_coords = [(1, 0)], intensities = [1], pattern_norm = 1\<rparr>]]\<rparr>"
  let ?e1 = "\<lparr>orientations = [(0, 0, 0), (10, 20, 30)],
            templates = [[\<lparr>pixel_coords = [(0, 1)], intensities = [1], pattern_norm = 1\<rparr>,
                          \<lparr>pixel_coords = [(-1, -1)], intensities = [1], pattern_norm = 2\<rparr>]]\<rparr>"
  have pc: "phase_correlations ?img ?e0 = Inr [1, 2]"
    by (simp add: phase_correlations_def template_correlation_def image_at_def np_get_def
        bind_err_def Let_def)
  have h3: "(1::nat) \<le> 2" by simp
  have h4: "\<forall>e \<in> set [?e0, ?e1].
               (\<forall>row \<in> set (templates e). length row = length (orientations e))
             \<and> 2 \<le> length (concat (templates e))
             \<and> (\<forall>t \<in> set (concat (templates e)).
                   pattern_norm t \<noteq> 0
                 \<and> (\<forall>xy \<in> set (pixel_coords t). image_at ?img xy \<noteq> Inl IndexError))"
    by (simp add: image_at_def np_get_def bind_err_def Let_def)
  from correlate_library_blocks [OF argsort_stable_ok argpartition_sorted_ok h3 h4]
  obtain rows where
    r: "correlate_library np_argsort_stable argpartition_sorted ?img [?e0, ?e1] (int 2) True
          = Inr (map Some rows)"
    and l: "length rows = length [?e0, ?e1] * 2"
    and p: "\<forall>i < length [?e0, ?e1]. \<forall>j < 2.
                  t_phase (rows ! (i * 2 + j)) = i
                \<and> (\<exists>cs. phase_correlations ?img ([?e0, ?e1] ! i) = Inr cs
                         \<and> t_correlation (rows ! (i * 2 + j)) \<in> set cs)
                \<and> (\<forall>j'. j \<le> j' \<and> j' < 2 \<longrightarrow>
                       t_correlation (rows ! (i * 2 + j'))
                         \<le> t_correlation (rows ! (i * 2 + j)))"
    by blast
  have a: "t_phase (rows ! 2) = 1" using p [rule_format, of 1 0] by simp
  have b: "t_correlation (rows ! 1) \<le> t_correlation (rows ! 0)"
    using p [rule_format, of 0 0] by simp
  have "\<exists>rows. correlate_library np_argsort_stable argpartition_sorted ?img [?e0, ?e1] 2 True
          = Inr (map Some rows)
        \<and> length rows = 4
        \<and> t_phase (rows ! 2) = 1
        \<and> t_correlation (rows ! 1) \<le> t_correlation (rows ! 0)"
    using r l a b by (intro exI [of _ rows]) simp
  with argsort_stable_ok argpartition_sorted_ok pc show ?thesis by blast
qed

text \<open>
  A phase with a single template and \<open>n = 2\<close>: the partition position is out of bounds
  and the call raises, where two rows were claimed.
\<close>

theorem correlate_library_short_phase_counterexample:
  "correlate_library np_argsort_stable argpartition_sorted [[1]]
     [\<lparr>orientations = [(0, 0, 0)],
       templates = [[\<lparr>pixel_coords = [(0, 0)], intensities = [1], pattern_norm = 1\<rparr>]]\<rparr>]
     2 True = Inl ValueError"
  by (simp add: correlate_library_def correlate_phase_def phase_correlations_def
      template_correlation_def image_at_def np_get_def bind_err_def Let_def)

end
